theory Spec2Isabelle
  imports Complex_Main "HOL-Library.Product_Lexorder"
begin

section \<open>Values, errors and SQL conventions\<close>

text \<open>
  Identifiers are UUIDs, timestamps are points on an integer time line (the value of
  \<open>NOW()\<close> is an argument of every statement that reads the clock), and a
  \<open>VECTOR(768)\<close> is a list of 768 numbers. A nullable column is an \<open>option\<close>:
  \<open>None\<close> is SQL's NULL. The ids of the rows of \<open>auth.users\<close>, which \<open>user_id\<close>
  references, are an argument \<open>users\<close> of the inserts into \<open>journal_entries\<close> and
  \<open>chat_sessions\<close>.
\<close>

type_synonym uuid = nat
type_synonym timestamptz = int
type_synonym vector = "real list"

definition vector_dim :: nat where
  "vector_dim = 768"

text \<open>What a database call can answer instead of rows.\<close>

datatype db_error =
    ConnectionError
  | UniqueViolation
  | ForeignKeyViolation
  | NoUniqueConstraint
  | NegativeLimit
  | WrongDimension
  | ValueTooLong
  | NotSingleRow

text \<open>
  \<open>FLOAT\<close> is \<open>float8\<close>: a number, an infinity or NaN (rounding is not modelled: the
  numbers are the reals). In comparisons and in \<open>ORDER BY\<close>, PostgreSQL treats NaN as
  equal to NaN and greater than every other value; \<open>float8_key\<close> maps a value to its
  place in that order.
\<close>

datatype float8 = Finite real | PlusInfinity | MinusInfinity | NaN

definition float8_key :: "float8 \<Rightarrow> nat \<times> real" where
  "float8_key x = (case x of
       MinusInfinity \<Rightarrow> (0, 0)
     | Finite v \<Rightarrow> (1, v)
     | PlusInfinity \<Rightarrow> (2, 0)
     | NaN \<Rightarrow> (3, 0))"

text \<open>\<open>a > b\<close> on \<open>float8\<close>.\<close>

definition float8_gt :: "float8 \<Rightarrow> float8 \<Rightarrow> bool" where
  "float8_gt a b = (float8_key b < float8_key a)"

text \<open>\<open>1 - d\<close> on \<open>float8\<close>.\<close>

definition one_minus :: "float8 \<Rightarrow> float8" where
  "one_minus d = (case d of
       Finite v \<Rightarrow> Finite (1 - v)
     | PlusInfinity \<Rightarrow> MinusInfinity
     | MinusInfinity \<Rightarrow> PlusInfinity
     | NaN \<Rightarrow> NaN)"

text \<open>
  \<open>ORDER BY x\<close> (ascending) places NULL last, \<open>ORDER BY x DESC\<close> places NULL first.
  Rows with equal keys keep the order of the table (SQL leaves their order open).
\<close>

definition asc_nulls_last :: "float8 option \<Rightarrow> nat \<times> nat \<times> real" where
  "asc_nulls_last x = (case x of None \<Rightarrow> (1, 0, 0) | Some d \<Rightarrow> (0, float8_key d))"

definition desc_nulls_first :: "timestamptz option \<Rightarrow> nat \<times> int" where
  "desc_nulls_first x = (case x of None \<Rightarrow> (0, 0) | Some t \<Rightarrow> (1, - t))"

text \<open>\<open>LIMIT n\<close>: a negative count is an error of the statement.\<close>

definition sql_limit :: "int \<Rightarrow> 'a list \<Rightarrow> db_error + 'a list" where
  "sql_limit n xs = (if n < 0 then Inl NegativeLimit else Inr (take (nat n) xs))"

text \<open>
  A \<open>WHERE\<close> clause whose evaluation on a row can raise: the statement fails with the
  first error, otherwise it keeps the rows on which the clause is TRUE.
\<close>

fun sql_where :: "('r \<Rightarrow> db_error + bool) \<Rightarrow> 'r list \<Rightarrow> db_error + 'r list" where
  "sql_where p [] = Inr []"
| "sql_where p (r # rs) =
     (case p r of
        Inl e \<Rightarrow> Inl e
      | Inr b \<Rightarrow>
          (case sql_where p rs of
             Inl e \<Rightarrow> Inl e
           | Inr ys \<Rightarrow> Inr (if b then r # ys else ys)))"

section \<open>Journal store\<close>

text \<open>Table \<open>journal_entries\<close> of \<open>schema.sql\<close>.\<close>

record journal_entry =
  je_id :: uuid
  je_user_id :: uuid
  je_content :: string
  je_embedding :: "vector option"
  je_mood_tags :: "string list option"
  je_topics :: "string list option"
  je_embedding_model :: "string option"
  je_is_archived :: "bool option"
  je_public_visibility :: "bool option"
  je_created_at :: "timestamptz option"

text \<open>The rows \<open>match_journal_entries\<close> returns: id, content, similarity, created_at.\<close>

record match_row =
  m_id :: uuid
  m_content :: string
  m_similarity :: "float8 option"
  m_created_at :: "timestamptz option"

text \<open>
  \<open>embedding <=> query_embedding\<close>, the cosine distance of the pgvector extension. The
  operator is NULL when the embedding is NULL and raises when the two vectors differ in
  dimension (the type of the parameter, \<open>VECTOR(768)\<close>, does not bound the dimension of
  the argument: PostgreSQL drops the modifier of a parameter type). On vectors of the
  same dimension its value is the argument \<open>cdist\<close> of every function that uses it, a
  \<open>float8\<close>; \<open>pgvector_cosine\<close> below is the value pgvector computes.
\<close>

definition cosine_distance ::
  "(vector \<Rightarrow> vector \<Rightarrow> float8) \<Rightarrow> vector option \<Rightarrow> vector \<Rightarrow> db_error + float8 option" where
  "cosine_distance cdist e q =
     (case e of
        None \<Rightarrow> Inr None
      | Some v \<Rightarrow> if length v \<noteq> length q then Inl WrongDimension else Inr (Some (cdist v q)))"

text \<open>
  pgvector computes \<open>a <=> b\<close> as one minus the inner product over the square root of the
  product of the squared norms, the quotient kept within -1 and 1. When a norm is zero
  the quotient is 0/0, which is NaN, and so is the distance.
\<close>

definition inner_product :: "vector \<Rightarrow> vector \<Rightarrow> real" where
  "inner_product a b = sum_list (map2 (*) a b)"

definition pgvector_cosine :: "vector \<Rightarrow> vector \<Rightarrow> float8" where
  "pgvector_cosine a b =
     (if inner_product a a * inner_product b b = 0 then NaN
      else Finite (1 - max (- 1) (min 1
             (inner_product a b / sqrt (inner_product a a * inner_product b b)))))"

text \<open>
  The \<open>WHERE\<close> clause of \<open>match_journal_entries\<close>, its conjuncts from left to right: a
  row passes when every conjunct is TRUE, a comparison with NULL is not TRUE, and the
  distance is computed for the rows that pass the conjuncts before it (the order in
  which the conjuncts are evaluated is the planner's; this is the order as written).
\<close>

definition match_where ::
  "(vector \<Rightarrow> vector \<Rightarrow> float8) \<Rightarrow> vector \<Rightarrow> float8 \<Rightarrow> uuid \<Rightarrow> journal_entry \<Rightarrow> db_error + bool" where
  "match_where cdist query_embedding match_threshold target_user_id r =
     (if je_user_id r \<noteq> target_user_id then Inr False
      else if je_is_archived r \<noteq> Some False then Inr False
      else if je_embedding r = None then Inr False
      else (case cosine_distance cdist (je_embedding r) query_embedding of
              Inl e \<Rightarrow> Inl e
            | Inr None \<Rightarrow> Inr False
            | Inr (Some d) \<Rightarrow> Inr (float8_gt (one_minus d) match_threshold)))"

text \<open>
  The select list and the \<open>ORDER BY\<close> key, on rows that passed the \<open>WHERE\<close> clause (so
  the dimensions agree).
\<close>

definition match_select :: "(vector \<Rightarrow> vector \<Rightarrow> float8) \<Rightarrow> vector \<Rightarrow> journal_entry \<Rightarrow> match_row" where
  "match_select cdist query_embedding r =
     \<lparr> m_id = je_id r,
       m_content = je_content r,
       m_similarity = map_option (\<lambda>v. one_minus (cdist v query_embedding)) (je_embedding r),
       m_created_at = je_created_at r \<rparr>"

definition match_order :: "(vector \<Rightarrow> vector \<Rightarrow> float8) \<Rightarrow> vector \<Rightarrow> journal_entry \<Rightarrow> nat \<times> nat \<times> real" where
  "match_order cdist query_embedding r =
     asc_nulls_last (map_option (\<lambda>v. cdist v query_embedding) (je_embedding r))"

text \<open>
  The statement of \<open>match_journal_entries\<close>: a negative \<open>LIMIT\<close> is refused before any
  row is read; then come the \<open>WHERE\<close> clause, \<open>ORDER BY\<close>, \<open>LIMIT\<close> and the select list.
\<close>

definition match_journal_entries ::
  "(vector \<Rightarrow> vector \<Rightarrow> float8) \<Rightarrow> journal_entry list \<Rightarrow> vector \<Rightarrow> float8 \<Rightarrow> int \<Rightarrow> uuid
     \<Rightarrow> db_error + match_row list" where
  "match_journal_entries cdist tbl query_embedding match_threshold match_count target_user_id =
     (if match_count < 0 then Inl NegativeLimit
      else (case sql_where (match_where cdist query_embedding match_threshold target_user_id) tbl of
              Inl e \<Rightarrow> Inl e
            | Inr hits \<Rightarrow>
                map_sum id (map (match_select cdist query_embedding))
                  (sql_limit match_count (sort_key (match_order cdist query_embedding) hits))))"


text \<open>The rows \<open>get_recent_journal_entries\<close> returns: id, content, created_at.\<close>

record recent_row =
  r_id :: uuid
  r_content :: string
  r_created_at :: "timestamptz option"

definition recent_where :: "uuid \<Rightarrow> journal_entry \<Rightarrow> bool" where
  "recent_where target_user_id r =
     (je_user_id r = target_user_id \<and> je_is_archived r = Some False)"

definition recent_select :: "journal_entry \<Rightarrow> recent_row" where
  "recent_select r = \<lparr> r_id = je_id r, r_content = je_content r, r_created_at = je_created_at r \<rparr>"

definition get_recent_journal_entries ::
  "journal_entry list \<Rightarrow> uuid \<Rightarrow> int \<Rightarrow> db_error + recent_row list" where
  "get_recent_journal_entries tbl target_user_id entry_count =
     map_sum id (map recent_select)
       (sql_limit entry_count
         (sort_key (\<lambda>r. desc_nulls_first (je_created_at r))
           (filter (recent_where target_user_id) tbl)))"

text \<open>
  The earlier setup scripts (\<open>supabase_remove_fk.sql\<close> and its siblings) create
  \<open>journal_entries\<close> with five columns and a \<open>match_journal_entries\<close> whose \<open>WHERE\<close>
  clause has the owner and the threshold only, and which returns id, content and
  similarity.
\<close>

record journal_entry_basic =
  jb_id :: uuid
  jb_user_id :: uuid
  jb_content :: string
  jb_embedding :: "vector option"
  jb_created_at :: "timestamptz option"

record match_row_basic =
  mb_id :: uuid
  mb_content :: string
  mb_similarity :: "float8 option"

definition match_where_basic ::
  "(vector \<Rightarrow> vector \<Rightarrow> float8) \<Rightarrow> vector \<Rightarrow> float8 \<Rightarrow> uuid \<Rightarrow> journal_entry_basic \<Rightarrow> db_error + bool" where
  "match_where_basic cdist query_embedding match_threshold user_id r =
     (if jb_user_id r \<noteq> user_id then Inr False
      else (case cosine_distance cdist (jb_embedding r) query_embedding of
              Inl e \<Rightarrow> Inl e
            | Inr None \<Rightarrow> Inr False
            | Inr (Some d) \<Rightarrow> Inr (float8_gt (one_minus d) match_threshold)))"

definition match_select_basic :: "(vector \<Rightarrow> vector \<Rightarrow> float8) \<Rightarrow> vector \<Rightarrow> journal_entry_basic \<Rightarrow> match_row_basic" where
  "match_select_basic cdist query_embedding r =
     \<lparr> mb_id = jb_id r,
       mb_content = jb_content r,
       mb_similarity = map_option (\<lambda>v. one_minus (cdist v query_embedding)) (jb_embedding r) \<rparr>"

definition match_order_basic :: "(vector \<Rightarrow> vector \<Rightarrow> float8) \<Rightarrow> vector \<Rightarrow> journal_entry_basic \<Rightarrow> nat \<times> nat \<times> real" where
  "match_order_basic cdist query_embedding r =
     asc_nulls_last (map_option (\<lambda>v. cdist v query_embedding) (jb_embedding r))"

definition match_journal_entries_basic ::
  "(vector \<Rightarrow> vector \<Rightarrow> float8) \<Rightarrow> journal_entry_basic list \<Rightarrow> vector \<Rightarrow> float8 \<Rightarrow> int \<Rightarrow> uuid
     \<Rightarrow> db_error + match_row_basic list" where
  "match_journal_entries_basic cdist tbl query_embedding match_threshold match_count user_id =
     (if match_count < 0 then Inl NegativeLimit
      else (case sql_where (match_where_basic cdist query_embedding match_threshold user_id) tbl of
              Inl e \<Rightarrow> Inl e
            | Inr hits \<Rightarrow>
                map_sum id (map (match_select_basic cdist query_embedding))
                  (sql_limit match_count (sort_key (match_order_basic cdist query_embedding) hits))))"

definition embeddings_of_dim_basic :: "nat \<Rightarrow> journal_entry_basic list \<Rightarrow> bool" where
  "embeddings_of_dim_basic d tbl =
     list_all (\<lambda>r. case jb_embedding r of None \<Rightarrow> True | Some e \<Rightarrow> length e = d) tbl"

text \<open>
  \<open>INSERT INTO journal_entries\<close> as the request handlers issue it: user_id, content,
  embedding and mood_tags are supplied; id, embedding_model, is_archived,
  public_visibility and created_at take their column defaults. \<open>new_id\<close> is the value
  \<open>uuid_generate_v4()\<close> produces, \<open>up\<close> says whether the call reaches the database. The
  column is \<open>user_id UUID REFERENCES auth.users(id) ON DELETE CASCADE NOT NULL\<close>, so the
  insert is refused for a user that \<open>auth.users\<close> does not hold; the foreign key is
  checked after the primary key.
\<close>

definition insert_journal_entry ::
  "bool \<Rightarrow> uuid list \<Rightarrow> uuid \<Rightarrow> timestamptz \<Rightarrow> journal_entry list \<Rightarrow> uuid \<Rightarrow> string \<Rightarrow> vector option
     \<Rightarrow> string list option \<Rightarrow> db_error + (journal_entry list \<times> journal_entry)" where
  "insert_journal_entry up users new_id now tbl user_id content embedding mood_tags =
     (if \<not> up then Inl ConnectionError
      else if (case embedding of None \<Rightarrow> False | Some e \<Rightarrow> length e \<noteq> vector_dim)
        then Inl WrongDimension
      else if new_id \<in> set (map je_id tbl) then Inl UniqueViolation
      else if user_id \<notin> set users then Inl ForeignKeyViolation
      else
        let r = \<lparr> je_id = new_id,
                  je_user_id = user_id,
                  je_content = content,
                  je_embedding = embedding,
                  je_mood_tags = mood_tags,
                  je_topics = None,
                  je_embedding_model = Some ''gemini-text-embedding-004'',
                  je_is_archived = Some False,
                  je_public_visibility = Some False,
                  je_created_at = Some now \<rparr>
        in Inr (tbl @ [r], r))"

text \<open>
  Archiving: \<open>UPDATE journal_entries SET is_archived = true WHERE user_id = ... AND
  created_at < NOW() - INTERVAL ... AND is_archived = false\<close>. The interval is the
  argument \<open>age\<close>.
\<close>

definition archive_where :: "timestamptz \<Rightarrow> int \<Rightarrow> uuid \<Rightarrow> journal_entry \<Rightarrow> bool" where
  "archive_where now age user_id r =
     (je_user_id r = user_id
      \<and> (case je_created_at r of None \<Rightarrow> False | Some c \<Rightarrow> c < now - age)
      \<and> je_is_archived r = Some False)"

definition archive_old_entries :: "timestamptz \<Rightarrow> int \<Rightarrow> uuid \<Rightarrow> journal_entry list \<Rightarrow> journal_entry list" where
  "archive_old_entries now age user_id tbl =
     map (\<lambda>r. if archive_where now age user_id r then r\<lparr>je_is_archived := Some True\<rparr> else r) tbl"

text \<open>
  The statements that write \<open>journal_entries\<close>, and a history of them run in order.
  An insert comes with what it meets when it runs: whether the database is reached, the
  users that exist, the generated id and the clock. A statement that fails leaves the
  table as it was.
\<close>

datatype journal_write =
    InsertEntry bool "uuid list" uuid timestamptz uuid string "vector option" "string list option"
  | ArchiveOld timestamptz int uuid

fun journal_step :: "journal_entry list \<Rightarrow> journal_write \<Rightarrow> journal_entry list" where
  "journal_step tbl (InsertEntry up users new_id now user_id content embedding mood_tags) =
     (case insert_journal_entry up users new_id now tbl user_id content embedding mood_tags of
        Inl _ \<Rightarrow> tbl
      | Inr (tbl', _) \<Rightarrow> tbl')"
| "journal_step tbl (ArchiveOld now age user_id) = archive_old_entries now age user_id tbl"

definition journal_run :: "journal_entry list \<Rightarrow> journal_write list \<Rightarrow> journal_entry list" where
  "journal_run tbl ws = foldl journal_step tbl ws"

section \<open>Session store\<close>

text \<open>Table \<open>chat_sessions\<close> of \<open>schema.sql\<close>.\<close>

record chat_session =
  cs_id :: uuid
  cs_user_id :: uuid
  cs_session_name :: "string option"
  cs_mentor_id :: "string option"
  cs_user_situation :: "string option"
  cs_started_at :: "timestamptz option"
  cs_ended_at :: "timestamptz option"
  cs_created_at :: "timestamptz option"

text \<open>What a Python call raises.\<close>

datatype py_exn = APIError db_error | ProviderError string

definition open_session_of :: "uuid \<Rightarrow> chat_session \<Rightarrow> bool" where
  "open_session_of user_id s = (cs_user_id s = user_id \<and> cs_ended_at s = None)"

text \<open>
  \<open>select('*').eq('user_id', user_id).is_('ended_at', 'null').order('started_at',
  desc=True).limit(1)\<close>.
\<close>

definition select_open_session :: "bool \<Rightarrow> chat_session list \<Rightarrow> uuid \<Rightarrow> db_error + chat_session list" where
  "select_open_session up tbl user_id =
     (if \<not> up then Inl ConnectionError
      else Inr (take 1 (sort_key (\<lambda>s. desc_nulls_first (cs_started_at s))
                         (filter (open_session_of user_id) tbl))))"

text \<open>
  \<open>insert({'user_id': user_id})\<close>: every other column takes its default. The column is
  \<open>user_id UUID REFERENCES auth.users(id) ON DELETE CASCADE NOT NULL\<close>, so the insert is
  refused for a user that \<open>auth.users\<close> does not hold.
\<close>

definition insert_chat_session ::
  "bool \<Rightarrow> uuid list \<Rightarrow> uuid \<Rightarrow> timestamptz \<Rightarrow> chat_session list \<Rightarrow> uuid
     \<Rightarrow> db_error + (chat_session list \<times> chat_session)" where
  "insert_chat_session up users new_id now tbl user_id =
     (if \<not> up then Inl ConnectionError
      else if new_id \<in> set (map cs_id tbl) then Inl UniqueViolation
      else if user_id \<notin> set users then Inl ForeignKeyViolation
      else
        let s = \<lparr> cs_id = new_id,
                  cs_user_id = user_id,
                  cs_session_name = None,
                  cs_mentor_id = None,
                  cs_user_situation = None,
                  cs_started_at = Some now,
                  cs_ended_at = None,
                  cs_created_at = Some now \<rparr>
        in Inr (tbl @ [s], s))"

text \<open>
  \<open>get_or_create_chat_session\<close>: the function has no \<open>try\<close>, so what a database call
  raises leaves the function.
\<close>

definition get_or_create_chat_session ::
  "bool \<Rightarrow> uuid list \<Rightarrow> uuid \<Rightarrow> timestamptz \<Rightarrow> chat_session list \<Rightarrow> uuid
     \<Rightarrow> py_exn + (chat_session list \<times> chat_session)" where
  "get_or_create_chat_session up users new_id now tbl user_id =
     (case select_open_session up tbl user_id of
        Inl e \<Rightarrow> Inl (APIError e)
      | Inr (s # _) \<Rightarrow> Inr (tbl, s)
      | Inr [] \<Rightarrow>
          (case insert_chat_session up users new_id now tbl user_id of
             Inl e \<Rightarrow> Inl (APIError e)
           | Inr created \<Rightarrow> Inr created))"

text \<open>
  The same function one database call at a time, for two requests that run side by
  side: a request is about to select, about to insert, or finished.
\<close>

datatype request_state =
    Selecting uuid
  | Inserting uuid
  | Returned chat_session
  | Raised py_exn

definition request_step ::
  "bool \<Rightarrow> uuid list \<Rightarrow> uuid \<Rightarrow> timestamptz \<Rightarrow> chat_session list \<Rightarrow> request_state
     \<Rightarrow> chat_session list \<times> request_state" where
  "request_step up users new_id now tbl st =
     (case st of
        Selecting user_id \<Rightarrow>
          (case select_open_session up tbl user_id of
             Inl e \<Rightarrow> (tbl, Raised (APIError e))
           | Inr (s # _) \<Rightarrow> (tbl, Returned s)
           | Inr [] \<Rightarrow> (tbl, Inserting user_id))
      | Inserting user_id \<Rightarrow>
          (case insert_chat_session up users new_id now tbl user_id of
             Inl e \<Rightarrow> (tbl, Raised (APIError e))
           | Inr (tbl', s) \<Rightarrow> (tbl', Returned s))
      | Returned s \<Rightarrow> (tbl, Returned s)
      | Raised e \<Rightarrow> (tbl, Raised e))"

text \<open>
  Two requests \<open>A\<close> and \<open>B\<close>, each with its own generated id and clock reading; the
  schedule says which of them makes the next database call (\<open>True\<close> for \<open>A\<close>).
\<close>

fun interleave ::
  "uuid list \<Rightarrow> (uuid \<times> timestamptz) \<Rightarrow> (uuid \<times> timestamptz) \<Rightarrow> bool list
     \<Rightarrow> chat_session list \<times> request_state \<times> request_state
     \<Rightarrow> chat_session list \<times> request_state \<times> request_state" where
  "interleave users a b [] cfg = cfg"
| "interleave users a b (True # sched) (tbl, sa, sb) =
     (case request_step True users (fst a) (snd a) tbl sa of
        (tbl', sa') \<Rightarrow> interleave users a b sched (tbl', sa', sb))"
| "interleave users a b (False # sched) (tbl, sa, sb) =
     (case request_step True users (fst b) (snd b) tbl sb of
        (tbl', sb') \<Rightarrow> interleave users a b sched (tbl', sa, sb'))"

text \<open>Ending a session: \<open>UPDATE chat_sessions SET ended_at = NOW() WHERE id = ...\<close>.\<close>

definition end_chat_session :: "timestamptz \<Rightarrow> uuid \<Rightarrow> chat_session list \<Rightarrow> chat_session list" where
  "end_chat_session now session_id tbl =
     map (\<lambda>s. if cs_id s = session_id then s\<lparr>cs_ended_at := Some now\<rparr> else s) tbl"

text \<open>
  Calls of the session store made one after the other, each with what it meets when it
  runs.
\<close>

datatype session_call =
    GetOrCreate bool "uuid list" uuid timestamptz uuid
  | EndSession timestamptz uuid

fun session_step :: "chat_session list \<Rightarrow> session_call \<Rightarrow> chat_session list" where
  "session_step tbl (GetOrCreate up users new_id now user_id) =
     (case get_or_create_chat_session up users new_id now tbl user_id of
        Inl _ \<Rightarrow> tbl
      | Inr (tbl', _) \<Rightarrow> tbl')"
| "session_step tbl (EndSession now session_id) = end_chat_session now session_id tbl"

definition session_run :: "chat_session list \<Rightarrow> session_call list \<Rightarrow> chat_session list" where
  "session_run tbl cs = foldl session_step tbl cs"

section \<open>Rows with an \<open>updated_at\<close> column and their trigger\<close>

text \<open>
  \<open>user_profiles\<close> and \<open>conversation_history\<close> both carry \<open>updated_at\<close> and both have
  the trigger \<open>BEFORE UPDATE ... FOR EACH ROW EXECUTE FUNCTION update_updated_at_column()\<close>.
  The two row types extend one record, so that the trigger function is one function.
\<close>

record timestamped =
  updated_at :: "timestamptz option"

definition update_updated_at_column :: "timestamptz \<Rightarrow> 'a timestamped_scheme \<Rightarrow> 'a timestamped_scheme" where
  "update_updated_at_column now NEW = NEW\<lparr>updated_at := Some now\<rparr>"

text \<open>
  An \<open>UPDATE\<close> statement on such a table: \<open>wh\<close> is its \<open>WHERE\<close> clause, \<open>assign\<close> its
  \<open>SET\<close> clause; the trigger runs on every row the statement is about to write.
\<close>

definition update_rows ::
  "timestamptz \<Rightarrow> ('a timestamped_scheme \<Rightarrow> bool) \<Rightarrow> ('a timestamped_scheme \<Rightarrow> 'a timestamped_scheme)
     \<Rightarrow> 'a timestamped_scheme list \<Rightarrow> 'a timestamped_scheme list" where
  "update_rows now wh assign tbl =
     map (\<lambda>r. if wh r then update_updated_at_column now (assign r) else r) tbl"

text \<open>
  The statements that write such a table: an \<open>UPDATE\<close>, or an \<open>INSERT\<close> that leaves
  \<open>updated_at\<close> to its default \<open>NOW()\<close> or passes \<open>'now()'\<close> for it, as every insert of
  the repository does. A history of them is run in order. Beside the table it keeps,
  for every row, the time of the last statement that wrote the row.
\<close>

datatype 'a write_stmt =
    UpdateStmt timestamptz "'a timestamped_scheme \<Rightarrow> bool" "'a timestamped_scheme \<Rightarrow> 'a timestamped_scheme"
  | InsertStmt timestamptz "'a timestamped_scheme"

definition touch :: "timestamptz \<Rightarrow> ('r \<Rightarrow> bool) \<Rightarrow> 'r list \<Rightarrow> timestamptz option list \<Rightarrow> timestamptz option list" where
  "touch now wh tbl written = map (\<lambda>(r, g). if wh r then Some now else g) (zip tbl written)"

fun write_history ::
  "'a timestamped_scheme list \<times> timestamptz option list \<Rightarrow> 'a write_stmt list
     \<Rightarrow> 'a timestamped_scheme list \<times> timestamptz option list" where
  "write_history cfg [] = cfg"
| "write_history (tbl, written) (UpdateStmt now wh assign # ws) =
     write_history (update_rows now wh assign tbl, touch now wh tbl written) ws"
| "write_history (tbl, written) (InsertStmt now r # ws) =
     write_history (tbl @ [r\<lparr>updated_at := Some now\<rparr>], written @ [Some now]) ws"

text \<open>Table \<open>user_profiles\<close> of \<open>schema.sql\<close>.\<close>

record user_profile = timestamped +
  up_id :: uuid
  up_display_name :: "string option"
  up_bio :: "string option"
  up_preferred_meditation_duration :: "int option"
  up_preferred_mentor_category :: "string option"
  up_theme_preference :: "string option"
  up_created_at :: "timestamptz option"

section \<open>Conversation-state store\<close>

text \<open>
  Table \<open>conversation_history\<close> of \<open>schema.sql\<close>. The serialized agent state is
  opaque to the store: the type variable \<open>'s\<close>.
\<close>

record 's conversation_row = timestamped +
  ch_id :: uuid
  ch_user_id :: uuid
  ch_session_key :: string
  ch_agent_state :: "'s option"
  ch_last_agent :: "string option"
  ch_created_at :: "timestamptz option"

text \<open>
  The unique indexes of a table, each as its list of columns. \<open>schema.sql\<close> gives
  \<open>conversation_history\<close> a primary key on \<open>id\<close> and a plain (not unique) index on
  \<open>(user_id, session_key)\<close>.
\<close>

definition conversation_history_unique :: "string list list" where
  "conversation_history_unique = [[''id'']]"

definition state_key :: "uuid \<Rightarrow> string \<Rightarrow> 's conversation_row \<Rightarrow> bool" where
  "state_key user_id session_key r = (ch_user_id r = user_id \<and> ch_session_key r = session_key)"

text \<open>
  \<open>upsert({user_id, session_key, agent_state, last_agent, updated_at: 'now()'},
  on_conflict='user_id,session_key')\<close>, that is \<open>INSERT ... ON CONFLICT (user_id,
  session_key) DO UPDATE SET ...\<close>. The statement is refused when the table has no
  unique index on the conflict target; \<open>uniques\<close> are the unique indexes the table has.
  \<open>session_key\<close> is \<open>VARCHAR(100)\<close> and \<open>last_agent\<close> is \<open>VARCHAR(50)\<close>.
\<close>

definition upsert_conversation_history ::
  "string list list \<Rightarrow> bool \<Rightarrow> uuid \<Rightarrow> timestamptz \<Rightarrow> 's conversation_row list
     \<Rightarrow> uuid \<Rightarrow> string \<Rightarrow> 's \<Rightarrow> string option
     \<Rightarrow> db_error + 's conversation_row list" where
  "upsert_conversation_history uniques up new_id now tbl user_id session_key agent_state last_agent =
     (if \<not> up then Inl ConnectionError
      else if [''user_id'', ''session_key''] \<notin> set uniques then Inl NoUniqueConstraint
      else if length session_key > 100
              \<or> (case last_agent of None \<Rightarrow> False | Some a \<Rightarrow> length a > 50)
        then Inl ValueTooLong
      else if \<exists>r\<in>set tbl. state_key user_id session_key r
        then Inr (update_rows now (state_key user_id session_key)
                    (\<lambda>r. r\<lparr> ch_agent_state := Some agent_state,
                             ch_last_agent := last_agent,
                             updated_at := Some now \<rparr>)
                    tbl)
      else if new_id \<in> set (map ch_id tbl) then Inl UniqueViolation
      else Inr (tbl @ [\<lparr> updated_at = Some now,
                         ch_id = new_id,
                         ch_user_id = user_id,
                         ch_session_key = session_key,
                         ch_agent_state = Some agent_state,
                         ch_last_agent = last_agent,
                         ch_created_at = Some now \<rparr>]))"

text \<open>
  \<open>select('*').eq('user_id', user_id).eq('session_key', session_key).order('updated_at',
  desc=True).limit(1)\<close>.
\<close>

definition select_conversation ::
  "bool \<Rightarrow> 's conversation_row list \<Rightarrow> uuid \<Rightarrow> string \<Rightarrow> db_error + 's conversation_row list" where
  "select_conversation up tbl user_id session_key =
     (if \<not> up then Inl ConnectionError
      else Inr (take 1 (sort_key (\<lambda>r. desc_nulls_first (updated_at r))
                         (filter (state_key user_id session_key) tbl))))"

definition delete_conversation ::
  "bool \<Rightarrow> 's conversation_row list \<Rightarrow> uuid \<Rightarrow> string \<Rightarrow> db_error + 's conversation_row list" where
  "delete_conversation up tbl user_id session_key =
     (if \<not> up then Inl ConnectionError
      else Inr (filter (\<lambda>r. \<not> state_key user_id session_key r) tbl))"

text \<open>
  \<open>ConversationStore\<close>. Each method wraps its database call in \<open>try ... except
  Exception\<close>, prints the exception and goes on, so none of them raises: the result is
  the value returned (and the table afterwards) together with the lines printed.
\<close>

datatype log_line =
    ErrorLoading py_exn
  | ErrorSaving py_exn
  | ErrorClearing py_exn

definition load_state ::
  "bool \<Rightarrow> 's conversation_row list \<Rightarrow> uuid \<Rightarrow> string \<Rightarrow> 's option \<times> log_line list" where
  "load_state up tbl user_id session_key =
     (case select_conversation up tbl user_id session_key of
        Inl e \<Rightarrow> (None, [ErrorLoading (APIError e)])
      | Inr (r # _) \<Rightarrow> (ch_agent_state r, [])
      | Inr [] \<Rightarrow> (None, []))"

text \<open>\<open>current_agent\<close> reads \<open>state.get('current_agent')\<close> off the opaque state.\<close>

definition save_state ::
  "string list list \<Rightarrow> ('s \<Rightarrow> string option) \<Rightarrow> bool \<Rightarrow> uuid \<Rightarrow> timestamptz \<Rightarrow> 's conversation_row list
     \<Rightarrow> uuid \<Rightarrow> 's \<Rightarrow> string \<Rightarrow> 's conversation_row list \<times> log_line list" where
  "save_state uniques current_agent up new_id now tbl user_id state session_key =
     (case upsert_conversation_history uniques up new_id now tbl user_id session_key state
             (current_agent state) of
        Inl e \<Rightarrow> (tbl, [ErrorSaving (APIError e)])
      | Inr tbl' \<Rightarrow> (tbl', []))"

definition clear_state ::
  "bool \<Rightarrow> 's conversation_row list \<Rightarrow> uuid \<Rightarrow> string \<Rightarrow> 's conversation_row list \<times> log_line list" where
  "clear_state up tbl user_id session_key =
     (case delete_conversation up tbl user_id session_key of
        Inl e \<Rightarrow> (tbl, [ErrorClearing (APIError e)])
      | Inr tbl' \<Rightarrow> (tbl', []))"

text \<open>
  The schema's README saves the state with \<open>upsert({...})\<close> and no \<open>on_conflict\<close>, and
  without a \<open>try\<close>. The conflict target is then the primary key \<open>id\<close>, which the payload
  does not carry: the row gets a generated id and is inserted beside the rows the key
  already has (were the generated id taken, the row with that id would be overwritten).
\<close>

definition save_conversation_state ::
  "('s \<Rightarrow> string option) \<Rightarrow> bool \<Rightarrow> uuid \<Rightarrow> timestamptz \<Rightarrow> 's conversation_row list
     \<Rightarrow> uuid \<Rightarrow> string \<Rightarrow> 's \<Rightarrow> py_exn + 's conversation_row list" where
  "save_conversation_state current_agent up new_id now tbl user_id session_key state =
     (if \<not> up then Inl (APIError ConnectionError)
      else if length session_key > 100
              \<or> (case current_agent state of None \<Rightarrow> False | Some a \<Rightarrow> length a > 50)
        then Inl (APIError ValueTooLong)
      else if new_id \<in> set (map ch_id tbl)
        then Inr (update_rows now (\<lambda>r. ch_id r = new_id)
                    (\<lambda>r. r\<lparr> ch_user_id := user_id,
                             ch_session_key := session_key,
                             ch_agent_state := Some state,
                             ch_last_agent := current_agent state,
                             updated_at := Some now \<rparr>)
                    tbl)
      else Inr (tbl @ [\<lparr> updated_at = Some now,
                         ch_id = new_id,
                         ch_user_id = user_id,
                         ch_session_key = session_key,
                         ch_agent_state = Some state,
                         ch_last_agent = current_agent state,
                         ch_created_at = Some now \<rparr>]))"

section \<open>Journal follow-ups\<close>

text \<open>Table \<open>journal_followups\<close> of \<open>schema.sql\<close>.\<close>

record journal_followup =
  jf_id :: uuid
  jf_original_entry_id :: uuid
  jf_follow_up_question :: "string option"
  jf_follow_up_answer :: "string option"
  jf_synthesized_entry_id :: "uuid option"
  jf_created_at :: "timestamptz option"

record journal_db =
  entries :: "journal_entry list"
  followups :: "journal_followup list"

text \<open>
  \<open>select('*').eq('id', entry_id).eq('user_id', user_id).single()\<close>: \<open>single\<close> raises
  unless exactly one row matches, so the handler's \<open>if not original_entry.data\<close> is
  never taken.
\<close>

definition select_entry_single :: "bool \<Rightarrow> journal_entry list \<Rightarrow> uuid \<Rightarrow> uuid \<Rightarrow> db_error + journal_entry" where
  "select_entry_single up tbl entry_id user_id =
     (if \<not> up then Inl ConnectionError
      else (case filter (\<lambda>r. je_id r = entry_id \<and> je_user_id r = user_id) tbl of
              [r] \<Rightarrow> Inr r
            | _ \<Rightarrow> Inl NotSingleRow))"

definition insert_followup ::
  "bool \<Rightarrow> uuid \<Rightarrow> timestamptz \<Rightarrow> journal_db \<Rightarrow> uuid \<Rightarrow> string \<Rightarrow> string
     \<Rightarrow> db_error + (journal_db \<times> journal_followup)" where
  "insert_followup up new_id now db original_entry_id question answer =
     (if \<not> up then Inl ConnectionError
      else if original_entry_id \<notin> set (map je_id (entries db)) then Inl ForeignKeyViolation
      else if new_id \<in> set (map jf_id (followups db)) then Inl UniqueViolation
      else
        let f = \<lparr> jf_id = new_id,
                  jf_original_entry_id = original_entry_id,
                  jf_follow_up_question = Some question,
                  jf_follow_up_answer = Some answer,
                  jf_synthesized_entry_id = None,
                  jf_created_at = Some now \<rparr>
        in Inr (db\<lparr>followups := followups db @ [f]\<rparr>, f))"

text \<open>\<open>update({'synthesized_entry_id': entry_id}).eq('id', followup_id)\<close>.\<close>

definition link_followup :: "bool \<Rightarrow> journal_db \<Rightarrow> uuid \<Rightarrow> uuid \<Rightarrow> db_error + journal_db" where
  "link_followup up db followup_id entry_id =
     (if \<not> up then Inl ConnectionError
      else if (\<exists>f\<in>set (followups db). jf_id f = followup_id)
              \<and> entry_id \<notin> set (map je_id (entries db))
        then Inl ForeignKeyViolation
      else Inr (db\<lparr>followups :=
                  map (\<lambda>f. if jf_id f = followup_id
                            then f\<lparr>jf_synthesized_entry_id := Some entry_id\<rparr> else f)
                      (followups db)\<rparr>))"

text \<open>
  What \<open>process_follow_up\<close> is run with: \<open>conn k\<close> says whether the handler's k-th
  database call (0 the select, 1 the follow-up insert, 2 the entry insert, 3 the link)
  reaches the database; the users that \<open>auth.users\<close> holds; the generated ids and clock
  readings of the two inserts; and the two provider calls, which are not part of the
  repository's files.
\<close>

record follow_up_env =
  conn :: "nat \<Rightarrow> bool"
  auth_users :: "uuid list"
  followup_new_id :: uuid
  followup_now :: timestamptz
  entry_new_id :: uuid
  entry_now :: timestamptz
  synthesize_entry :: "string \<Rightarrow> string \<Rightarrow> py_exn + string"
  get_embedding :: "string \<Rightarrow> py_exn + vector option"

record follow_up_request =
  req_user_id :: uuid
  req_entry_id :: uuid
  req_question :: string
  req_answer :: string

record follow_up_response =
  resp_status :: string
  resp_synthesized_entry :: journal_entry
  resp_followup_id :: uuid

text \<open>
  \<open>HTTPException(status_code, detail=str(e))\<close>: the second argument is the exception
  whose text is the detail.
\<close>

datatype http_error = HTTPException nat py_exn

text \<open>
  \<open>process_follow_up\<close>: the whole body is inside one \<open>try\<close>, and \<open>except Exception as e\<close>
  raises \<open>HTTPException(status_code=500, detail=str(e))\<close>. Nothing undoes the database
  calls made before the exception, so the result is the database as the handler left it
  together with the response or the error.
\<close>

definition process_follow_up ::
  "follow_up_env \<Rightarrow> journal_db \<Rightarrow> follow_up_request \<Rightarrow> journal_db \<times> (http_error + follow_up_response)" where
  "process_follow_up env db request =
     (case select_entry_single (conn env 0) (entries db) (req_entry_id request) (req_user_id request) of
        Inl e \<Rightarrow> (db, Inl (HTTPException 500 (APIError e)))
      | Inr original_entry \<Rightarrow>
     (case insert_followup (conn env 1) (followup_new_id env) (followup_now env) db
             (req_entry_id request) (req_question request) (req_answer request) of
        Inl e \<Rightarrow> (db, Inl (HTTPException 500 (APIError e)))
      | Inr (db1, followup_result) \<Rightarrow>
     (case synthesize_entry env (je_content original_entry) (req_answer request) of
        Inl x \<Rightarrow> (db1, Inl (HTTPException 500 x))
      | Inr synthesized_content \<Rightarrow>
     (case get_embedding env synthesized_content of
        Inl x \<Rightarrow> (db1, Inl (HTTPException 500 x))
      | Inr embedding \<Rightarrow>
     (case insert_journal_entry (conn env 2) (auth_users env) (entry_new_id env) (entry_now env)
             (entries db1)
             (req_user_id request) synthesized_content embedding None of
        Inl e \<Rightarrow> (db1, Inl (HTTPException 500 (APIError e)))
      | Inr (tbl2, new_entry_result) \<Rightarrow>
     (case link_followup (conn env 3) (db1\<lparr>entries := tbl2\<rparr>) (jf_id followup_result)
             (je_id new_entry_result) of
        Inl e \<Rightarrow> (db1\<lparr>entries := tbl2\<rparr>, Inl (HTTPException 500 (APIError e)))
      | Inr db3 \<Rightarrow>
          (db3, Inr \<lparr> resp_status = ''success'',
                      resp_synthesized_entry = new_entry_result,
                      resp_followup_id = jf_id followup_result \<rparr>)))))))"

section \<open>Appending a journal entry\<close>

text \<open>
  \<open>app/services/rag.py\<close> as \<open>HACKATHON_EXECUTION_PLAN.md\<close> gives it.
  \<open>generate_embedding\<close> calls the provider, \<open>genai.embed_content\<close>, which is the argument
  \<open>embed_content\<close> (\<open>Inl\<close>: the call raised), and returns the \<open>embedding\<close> field of the
  answer.
\<close>

definition generate_embedding :: "(string \<Rightarrow> py_exn + vector) \<Rightarrow> string \<Rightarrow> py_exn + vector" where
  "generate_embedding embed_content content = embed_content content"

text \<open>
  \<open>ingest_journal\<close>: the embedding is computed first, then the entry is inserted into
  \<open>journal_entries\<close> (the table of \<open>schema.sql\<close>) with user_id, content and embedding.
  Neither call is inside a \<open>try\<close>: what the provider or
  the database raises leaves the function, and then nothing has been stored. The result
  is the table after the call together with the exception, if one was raised.
\<close>

definition ingest_journal ::
  "(string \<Rightarrow> py_exn + vector) \<Rightarrow> bool \<Rightarrow> uuid list \<Rightarrow> uuid \<Rightarrow> timestamptz \<Rightarrow> journal_entry list
     \<Rightarrow> uuid \<Rightarrow> string \<Rightarrow> journal_entry list \<times> (py_exn + unit)" where
  "ingest_journal embed_content up users new_id now tbl user_id content =
     (case generate_embedding embed_content content of
        Inl x \<Rightarrow> (tbl, Inl x)
      | Inr embedding \<Rightarrow>
          (case insert_journal_entry up users new_id now tbl user_id content (Some embedding) None of
             Inl e \<Rightarrow> (tbl, Inl (APIError e))
           | Inr (tbl', _) \<Rightarrow> (tbl', Inr ())))"

section \<open>Archived entries\<close>

text \<open>
  An archived entry \<open>a\<close> is held by a table: it is a row of the table, it is marked
  archived, and it is the only row with its id.
\<close>

definition held_archived :: "journal_entry \<Rightarrow> journal_entry list \<Rightarrow> bool" where
  "held_archived a tbl = (a \<in> set tbl \<and> je_is_archived a = Some True
      \<and> (\<forall>x\<in>set tbl. je_id x = je_id a \<longrightarrow> x = a))"

section \<open>The rows a follow-up writes\<close>

text \<open>
  The follow-up row \<open>process_follow_up\<close> inserts (with the link it ends up with) and the
  journal entry it creates from the synthesized text.
\<close>

definition followup_row :: "follow_up_env \<Rightarrow> follow_up_request \<Rightarrow> uuid option \<Rightarrow> journal_followup" where
  "followup_row env request link =
     \<lparr> jf_id = followup_new_id env,
       jf_original_entry_id = req_entry_id request,
       jf_follow_up_question = Some (req_question request),
       jf_follow_up_answer = Some (req_answer request),
       jf_synthesized_entry_id = link,
       jf_created_at = Some (followup_now env) \<rparr>"

definition synthesized_row :: "follow_up_env \<Rightarrow> follow_up_request \<Rightarrow> string \<Rightarrow> vector option \<Rightarrow> journal_entry" where
  "synthesized_row env request content embedding =
     \<lparr> je_id = entry_new_id env,
       je_user_id = req_user_id request,
       je_content = content,
       je_embedding = embedding,
       je_mood_tags = None,
       je_topics = None,
       je_embedding_model = Some ''gemini-text-embedding-004'',
       je_is_archived = Some False,
       je_public_visibility = Some False,
       je_created_at = Some (entry_now env) \<rparr>"

section \<open>Sample data\<close>

text \<open>
  A small journal used to run the definitions: one-dimensional embeddings, with the
  absolute difference standing in for the cosine distance.
\<close>

definition demo_distance :: "vector \<Rightarrow> vector \<Rightarrow> float8" where
  "demo_distance a b = (case (a, b) of ([x], [y]) \<Rightarrow> Finite \<bar>x - y\<bar> | _ \<Rightarrow> Finite 1)"

definition demo_entry ::
  "uuid \<Rightarrow> uuid \<Rightarrow> string \<Rightarrow> vector option \<Rightarrow> bool option \<Rightarrow> timestamptz \<Rightarrow> journal_entry" where
  "demo_entry i u c e a t =
     \<lparr> je_id = i, je_user_id = u, je_content = c, je_embedding = e, je_mood_tags = None,
       je_topics = None, je_embedding_model = Some ''gemini-text-embedding-004'',
       je_is_archived = a, je_public_visibility = Some False, je_created_at = Some t \<rparr>"

definition demo_entries :: "journal_entry list" where
  "demo_entries =
     [ demo_entry 1 7 ''anxious about work'' (Some [1/5]) (Some False) 10,
       demo_entry 2 7 ''walk, felt calm'' (Some [1/10]) (Some False) 20,
       demo_entry 3 7 ''no embedding'' None (Some False) 30,
       demo_entry 4 7 ''old'' (Some [0]) (Some True) 5,
       demo_entry 5 8 ''other user'' (Some [0]) (Some False) 40 ]"

definition failing_provider :: "string \<Rightarrow> py_exn + vector" where
  "failing_provider s = Inl (ProviderError ''quota exceeded'')"

text \<open>
  A journal with embeddings of 768 dimensions: the first entry's embedding is the zero
  vector, the second points along the first axis, the third has the numbers 3 and 4 on
  the first two axes.
\<close>

definition zero_vector :: vector where
  "zero_vector = replicate 768 0"

definition axis_vector :: vector where
  "axis_vector = 1 # replicate 767 0"

definition slanted_vector :: vector where
  "slanted_vector = 3 # 4 # replicate 766 0"

definition search_entries :: "journal_entry list" where
  "search_entries =
     [ demo_entry 1 7 ''zero embedding'' (Some zero_vector) (Some False) 10,
       demo_entry 2 7 ''along the axis'' (Some axis_vector) (Some False) 20,
       demo_entry 3 7 ''slanted'' (Some slanted_vector) (Some False) 30 ]"

definition demo_users :: "uuid list" where
  "demo_users = [7, 8]"

definition demo_writes :: "journal_write list" where
  "demo_writes =
     [ InsertEntry True demo_users 9 500 7 ''a later entry'' None None,
       InsertEntry True demo_users 1 510 7 ''an id already taken'' None None,
       ArchiveOld 600 365 7 ]"

definition demo_session :: "uuid \<Rightarrow> uuid \<Rightarrow> timestamptz \<Rightarrow> timestamptz option \<Rightarrow> chat_session" where
  "demo_session i u t e =
     \<lparr> cs_id = i, cs_user_id = u, cs_session_name = None, cs_mentor_id = None,
       cs_user_situation = None, cs_started_at = Some t, cs_ended_at = e, cs_created_at = Some t \<rparr>"

definition demo_sessions :: "chat_session list" where
  "demo_sessions = [demo_session 1 7 100 None, demo_session 2 7 50 (Some 60), demo_session 3 8 70 None]"

definition demo_calls :: "session_call list" where
  "demo_calls =
     [ GetOrCreate True demo_users 11 100 7, GetOrCreate True demo_users 12 101 7,
       EndSession 150 11, GetOrCreate False demo_users 13 160 7,
       GetOrCreate True demo_users 14 200 7 ]"

definition demo_history :: "string conversation_row list" where
  "demo_history =
     [ \<lparr> updated_at = Some 5, ch_id = 1, ch_user_id = 7, ch_session_key = ''default'',
         ch_agent_state = Some ''persona A'', ch_last_agent = Some ''router'',
         ch_created_at = Some 5 \<rparr> ]"

definition demo_current_agent :: "string \<Rightarrow> string option" where
  "demo_current_agent st = Some ''router''"

definition demo_profiles :: "user_profile list" where
  "demo_profiles =
     [ \<lparr> updated_at = Some 3, up_id = 7, up_display_name = Some ''Ada'', up_bio = None,
         up_preferred_meditation_duration = Some 300, up_preferred_mentor_category = None,
         up_theme_preference = Some ''dark'', up_created_at = Some 3 \<rparr> ]"

text \<open>Which database calls of a follow-up request reach the database.\<close>

definition all_up :: "nat \<Rightarrow> bool" where
  "all_up k = True"

definition all_down :: "nat \<Rightarrow> bool" where
  "all_down k = False"

definition link_down :: "nat \<Rightarrow> bool" where
  "link_down k = (k \<noteq> 3)"

definition entry_insert_down :: "nat \<Rightarrow> bool" where
  "entry_insert_down k = (k \<noteq> 2)"

definition demo_env :: "(nat \<Rightarrow> bool) \<Rightarrow> follow_up_env" where
  "demo_env c =
     \<lparr> conn = c, auth_users = demo_users, followup_new_id = 21, followup_now = 100, entry_new_id = 31, entry_now = 101,
       synthesize_entry = (\<lambda>original answer. Inr (original @ '' -- '' @ answer)),
       get_embedding = (\<lambda>content. Inr None) \<rparr>"

definition demo_db :: journal_db where
  "demo_db = \<lparr> entries = demo_entries, followups = [] \<rparr>"

definition demo_request :: follow_up_request where
  "demo_request =
     \<lparr> req_user_id = 7, req_entry_id = 1, req_question = ''What triggered this?'',
       req_answer = ''A deadline'' \<rparr>"

definition demo_profile_writes :: "unit user_profile_ext write_stmt list" where
  "demo_profile_writes =
     [ UpdateStmt 60 (\<lambda>r. up_id r = 7) (\<lambda>r. r\<lparr>up_theme_preference := Some ''light''\<rparr>),
       InsertStmt 65 \<lparr> updated_at = None, up_id = 8, up_display_name = None, up_bio = None,
                       up_preferred_meditation_duration = Some 300,
                       up_preferred_mentor_category = None, up_theme_preference = Some ''dark'',
                       up_created_at = Some 65 \<rparr>,
       UpdateStmt 70 (\<lambda>r. up_id r = 8) (\<lambda>r. r\<lparr>up_bio := Some ''hello'', updated_at := Some 1\<rparr>) ]"

section \<open>Similarity search\<close>

lemma sql_limit_Inr:
  "sql_limit n xs = Inr ys \<longleftrightarrow> 0 \<le> n \<and> ys = take (nat n) xs"
  by (auto simp: sql_limit_def)

lemma sorted_take_key:
  "sorted (map f xs) \<Longrightarrow> sorted (map f (take k xs))"
  by (simp add: sorted_wrt_take flip: take_map)

lemma sql_where_Inr:
  "sql_where p xs = Inr ys \<Longrightarrow> ys = filter (\<lambda>r. p r = Inr True) xs"
  by (induction xs arbitrary: ys) (auto split: sum.splits if_splits)

lemma sql_where_total:
  "\<forall>r\<in>set xs. \<exists>b. p r = Inr b \<Longrightarrow> sql_where p xs = Inr (filter (\<lambda>r. p r = Inr True) xs)"
  by (induction xs) auto

text \<open>The order of \<open>float8\<close>: among numbers it is the order of the numbers, and NaN is on top.\<close>

lemma float8_gt_Finite:
  "float8_gt (Finite a) (Finite b) \<longleftrightarrow> b < a"
  by (simp add: float8_gt_def float8_key_def)

lemma float8_gt_NaN:
  "float8_gt NaN b \<longleftrightarrow> b \<noteq> NaN"
  by (cases b) (simp_all add: float8_gt_def float8_key_def)

lemma float8_key_NaN_le:
  "float8_key NaN \<le> float8_key d \<longleftrightarrow> d = NaN"
  by (cases d) (simp_all add: float8_key_def)

lemma one_minus_NaN:
  "one_minus d = NaN \<longleftrightarrow> d = NaN"
  by (cases d) (simp_all add: one_minus_def)

lemma one_minus_antitone:
  "d \<noteq> NaN \<Longrightarrow> d' \<noteq> NaN \<Longrightarrow> float8_key d \<le> float8_key d'
     \<Longrightarrow> float8_key (one_minus d') \<le> float8_key (one_minus d)"
  by (cases d; cases d') (simp_all add: float8_key_def one_minus_def)

lemma similarities_shape:
  assumes "sorted (map float8_key ds)"
  shows "\<exists>sims k. map one_minus ds = sims @ replicate k NaN \<and> NaN \<notin> set sims
           \<and> sorted (rev (map float8_key sims))"
  using assms
proof (induction ds)
  case Nil
  then show ?case by simp
next
  case (Cons d ds)
  from Cons obtain sims k where
    sims: "map one_minus ds = sims @ replicate k NaN" "NaN \<notin> set sims"
          "sorted (rev (map float8_key sims))"
    by auto
  from Cons.prems have above: "\<forall>d'\<in>set ds. float8_key d \<le> float8_key d'"
    by simp
  show ?case
  proof (cases "d = NaN")
    case True
    with above have all_nan: "\<forall>d'\<in>set ds. d' = NaN"
      by (simp add: float8_key_NaN_le)
    then have "map one_minus ds = replicate (length ds) NaN"
      by (induction ds) (simp_all add: one_minus_def)
    with True have "map one_minus (d # ds) = [] @ replicate (Suc (length ds)) NaN"
      by (simp add: one_minus_def)
    then show ?thesis by (metis empty_iff list.set(1) list.simps(8) rev.simps(1) sorted_wrt.simps(1))
  next
    case False
    have le: "float8_key s \<le> float8_key (one_minus d)" if "s \<in> set sims" for s
    proof -
      from that sims(1) have "s \<in> set (map one_minus ds)" by simp
      then obtain d' where d': "d' \<in> set ds" "s = one_minus d'" by auto
      from that sims(2) d'(2) have "d' \<noteq> NaN"
        by (auto simp: one_minus_def)
      with False above d'(1) show ?thesis
        unfolding d'(2) by (intro one_minus_antitone) auto
    qed
    have "map one_minus (d # ds) = (one_minus d # sims) @ replicate k NaN"
      using sims(1) by simp
    moreover have "NaN \<notin> set (one_minus d # sims)"
      using sims(2) False one_minus_NaN[of d] by auto
    moreover have "sorted (rev (map float8_key (one_minus d # sims)))"
      using sims(3) le by (auto simp: sorted_append)
    ultimately show ?thesis by blast
  qed
qed

lemma ranked_similarities:
  fixes emb :: "'r \<Rightarrow> vector option"
  assumes some: "\<forall>r\<in>set rs. emb r \<noteq> None"
    and srt: "sorted (map (\<lambda>r. asc_nulls_last (map_option (\<lambda>v. cdist v q) (emb r))) rs)"
  shows "\<exists>sims k.
      map (\<lambda>r. map_option (\<lambda>v. one_minus (cdist v q)) (emb r)) rs
        = map Some sims @ replicate k (Some NaN)
    \<and> NaN \<notin> set sims \<and> sorted (rev (map float8_key sims))"
proof -
  define ds where "ds = map (\<lambda>r. cdist (the (emb r)) q) rs"
  have key: "map (\<lambda>r. asc_nulls_last (map_option (\<lambda>v. cdist v q) (emb r))) rs
               = map (\<lambda>d. (0::nat, float8_key d)) ds"
    using some by (auto simp: ds_def asc_nulls_last_def)
  have "sorted (map (\<lambda>d. (0::nat, float8_key d)) ds)"
    using srt unfolding key .
  then have "sorted (map float8_key ds)"
    by (induction ds) auto
  from similarities_shape[OF this] obtain sims k where
    sims: "map one_minus ds = sims @ replicate k NaN" "NaN \<notin> set sims"
          "sorted (rev (map float8_key sims))"
    by blast
  have "map (\<lambda>r. map_option (\<lambda>v. one_minus (cdist v q)) (emb r)) rs = map Some (map one_minus ds)"
    using some by (auto simp: ds_def)
  also have "\<dots> = map Some sims @ replicate k (Some NaN)"
    unfolding sims(1) by (simp add: map_replicate)
  finally show ?thesis using sims(2,3) by blast
qed

lemma match_where_True:
  "match_where cdist q t u r = Inr True \<Longrightarrow>
     je_user_id r = u \<and> je_is_archived r = Some False
     \<and> (\<exists>e. je_embedding r = Some e \<and> length e = length q
            \<and> float8_gt (one_minus (cdist e q)) t)"
  by (auto simp: match_where_def cosine_distance_def split: option.splits if_splits)






lemma sample_lengths:
  "length zero_vector = 768" "length axis_vector = 768" "length slanted_vector = 768"
  by (simp_all add: zero_vector_def axis_vector_def slanted_vector_def)




text \<open>
  A negative count and a query of another dimension than the embeddings it is compared
  with make the call fail.
\<close>

lemma match_negative_count:
  "match_count < 0 \<Longrightarrow> match_journal_entries cdist tbl q t match_count u = Inl NegativeLimit"
  by (simp add: match_journal_entries_def)

lemma demo_match_wrong_dimension:
  "match_journal_entries pgvector_cosine search_entries [1, 0] (Finite (1/2)) 5 7 = Inl WrongDimension"
  by (simp add: match_journal_entries_def search_entries_def demo_entry_def match_where_def
      cosine_distance_def sample_lengths)

lemma demo_match:
  "match_journal_entries demo_distance demo_entries [0] (Finite (1/2)) 5 7 =
     Inr [\<lparr>m_id = 2, m_content = ''walk, felt calm'', m_similarity = Some (Finite (9/10)), m_created_at = Some 20\<rparr>,
          \<lparr>m_id = 1, m_content = ''anxious about work'', m_similarity = Some (Finite (4/5)), m_created_at = Some 10\<rparr>]"
  by (simp add: match_journal_entries_def demo_entries_def demo_entry_def demo_distance_def
      match_where_def match_select_def match_order_def cosine_distance_def sql_limit_def
      asc_nulls_last_def float8_gt_def float8_key_def one_minus_def)

text \<open>
  The five-column table and its \<open>match_journal_entries\<close> give the same guarantees, the
  archived flag apart (the table has none): a NULL embedding makes the threshold
  comparison NULL, so entries without embedding are left out there too.
\<close>

lemma match_where_basic_True:
  "match_where_basic cdist q t u r = Inr True \<Longrightarrow>
     jb_user_id r = u
     \<and> (\<exists>e. jb_embedding r = Some e \<and> length e = length q
            \<and> float8_gt (one_minus (cdist e q)) t)"
  by (auto simp: match_where_basic_def cosine_distance_def split: option.splits if_splits)

lemma match_where_basic_total:
  assumes "embeddings_of_dim_basic (length q) tbl"
  shows "\<forall>r\<in>set tbl. \<exists>b. match_where_basic cdist q t u r = Inr b"
proof
  fix r assume "r \<in> set tbl"
  with assms have "case jb_embedding r of None \<Rightarrow> True | Some e \<Rightarrow> length e = length q"
    by (simp add: embeddings_of_dim_basic_def list_all_iff)
  then have "match_where_basic cdist q t u r =
      Inr (jb_user_id r = u
           \<and> (\<exists>e. jb_embedding r = Some e \<and> float8_gt (one_minus (cdist e q)) t))"
    by (cases "jb_embedding r") (auto simp: match_where_basic_def cosine_distance_def)
  then show "\<exists>b. match_where_basic cdist q t u r = Inr b"
    by blast
qed

lemma match_journal_entries_basic_contract:
  assumes "0 \<le> match_count" and "embeddings_of_dim_basic (length q) tbl"
  shows "\<exists>rows sims k.
      match_journal_entries_basic cdist tbl q t match_count u = Inr rows
    \<and> length rows \<le> nat match_count
    \<and> map mb_similarity rows = map Some sims @ replicate k (Some NaN)
    \<and> NaN \<notin> set sims
    \<and> sorted (rev (map float8_key sims))
    \<and> (\<forall>res\<in>set rows. \<exists>r\<in>set tbl. \<exists>e.
          mb_id res = jb_id r \<and> mb_content res = jb_content r
        \<and> jb_user_id r = u
        \<and> jb_embedding r = Some e
        \<and> mb_similarity res = Some (one_minus (cdist e q))
        \<and> float8_gt (one_minus (cdist e q)) t)"
proof -
  define passed where "passed = filter (\<lambda>r. match_where_basic cdist q t u r = Inr True) tbl"
  define hits where "hits = take (nat match_count) (sort_key (match_order_basic cdist q) passed)"
  define rows where "rows = map (match_select_basic cdist q) hits"
  have "sql_where (match_where_basic cdist q t u) tbl = Inr passed"
    unfolding passed_def by (rule sql_where_total) (rule match_where_basic_total[OF assms(2)])
  then have run: "match_journal_entries_basic cdist tbl q t match_count u = Inr rows"
    using assms(1) by (simp add: match_journal_entries_basic_def sql_limit_def rows_def hits_def)
  have hits_sub: "set hits \<subseteq> {r \<in> set tbl. match_where_basic cdist q t u r = Inr True}"
    using set_take_subset[of "nat match_count" "sort_key (match_order_basic cdist q) passed"]
    by (auto simp: hits_def passed_def)
  have len: "length rows \<le> nat match_count"
    by (simp add: rows_def hits_def)
  have "sorted (map (match_order_basic cdist q) hits)"
    unfolding hits_def by (rule sorted_take_key) (rule sorted_sort_key)
  then have "sorted (map (\<lambda>r. asc_nulls_last (map_option (\<lambda>v. cdist v q) (jb_embedding r))) hits)"
    by (simp add: match_order_basic_def[abs_def])
  moreover have "\<forall>r\<in>set hits. jb_embedding r \<noteq> None"
  proof
    fix r assume "r \<in> set hits"
    with hits_sub have "match_where_basic cdist q t u r = Inr True" by auto
    from match_where_basic_True[OF this] show "jb_embedding r \<noteq> None" by auto
  qed
  ultimately obtain sims k where
    sims: "map (\<lambda>r. map_option (\<lambda>v. one_minus (cdist v q)) (jb_embedding r)) hits
             = map Some sims @ replicate k (Some NaN)"
          "NaN \<notin> set sims" "sorted (rev (map float8_key sims))"
    using ranked_similarities[of hits jb_embedding cdist q] by blast
  have "map mb_similarity rows
          = map (\<lambda>r. map_option (\<lambda>v. one_minus (cdist v q)) (jb_embedding r)) hits"
    by (simp add: rows_def match_select_basic_def)
  with sims(1) have shape: "map mb_similarity rows = map Some sims @ replicate k (Some NaN)"
    by simp
  have each: "\<forall>res\<in>set rows. \<exists>r\<in>set tbl. \<exists>e.
          mb_id res = jb_id r \<and> mb_content res = jb_content r
        \<and> jb_user_id r = u
        \<and> jb_embedding r = Some e
        \<and> mb_similarity res = Some (one_minus (cdist e q))
        \<and> float8_gt (one_minus (cdist e q)) t"
  proof
    fix res assume "res \<in> set rows"
    then obtain r where r: "r \<in> set hits" "res = match_select_basic cdist q r"
      by (auto simp: rows_def)
    with hits_sub have in_tbl: "r \<in> set tbl" and w: "match_where_basic cdist q t u r = Inr True"
      by auto
    from match_where_basic_True[OF w] obtain e where
      e: "jb_user_id r = u" "jb_embedding r = Some e" "float8_gt (one_minus (cdist e q)) t"
      by blast
    with r(2) in_tbl show "\<exists>r\<in>set tbl. \<exists>e.
          mb_id res = jb_id r \<and> mb_content res = jb_content r
        \<and> jb_user_id r = u
        \<and> jb_embedding r = Some e
        \<and> mb_similarity res = Some (one_minus (cdist e q))
        \<and> float8_gt (one_minus (cdist e q)) t"
      by (auto simp: match_select_basic_def)
  qed
  from run len shape sims(2,3) each show ?thesis by blast
qed

section \<open>Reading the journal\<close>

lemma recent_total:
  "0 \<le> n \<Longrightarrow> \<exists>rows. get_recent_journal_entries tbl u n = Inr rows"
  by (simp add: get_recent_journal_entries_def sql_limit_def)

lemma foldr_insort_key_min:
  assumes "\<forall>x\<in>set xs. f e < f x"
  shows "foldr (insort_key f) xs [e] = e # foldr (insort_key f) xs []"
  using assms by (induction xs) auto

lemma sort_key_snoc_min:
  assumes "\<forall>x\<in>set xs. f e < f x"
  shows "sort_key f (xs @ [e]) = e # sort_key f xs"
  using foldr_insort_key_min[OF assms] by (simp add: sort_key_def)

lemma insert_journal_entry_ok:
  assumes "new_id \<notin> set (map je_id tbl)" and "user_id \<in> set users"
  shows "insert_journal_entry True users new_id now tbl user_id content None mood_tags =
     Inr (tbl @ [\<lparr> je_id = new_id, je_user_id = user_id, je_content = content,
                     je_embedding = None, je_mood_tags = mood_tags, je_topics = None,
                     je_embedding_model = Some ''gemini-text-embedding-004'',
                     je_is_archived = Some False, je_public_visibility = Some False,
                     je_created_at = Some now \<rparr>],
          \<lparr> je_id = new_id, je_user_id = user_id, je_content = content,
                     je_embedding = None, je_mood_tags = mood_tags, je_topics = None,
                     je_embedding_model = Some ''gemini-text-embedding-004'',
                     je_is_archived = Some False, je_public_visibility = Some False,
                     je_created_at = Some now \<rparr>)"
  using assms by (simp add: insert_journal_entry_def Let_def)

lemma held_archived_insert:
  assumes "held_archived a tbl"
    and "insert_journal_entry up users new_id now tbl user_id content embedding mood_tags = Inr (tbl', e)"
  shows "held_archived a tbl'"
  using assms
  by (auto simp: held_archived_def insert_journal_entry_def Let_def split: if_splits)

lemma held_archived_archive:
  assumes "held_archived a tbl"
  shows "held_archived a (archive_old_entries now age user_id tbl)"
proof -
  have na: "\<not> archive_where now age user_id a"
    using assms by (simp add: held_archived_def archive_where_def)
  have "a \<in> (\<lambda>r. if archive_where now age user_id r then r\<lparr>je_is_archived := Some True\<rparr> else r) ` set tbl"
    using assms na by (intro image_eqI[where x = a]) (simp_all add: held_archived_def)
  then have "a \<in> set (archive_old_entries now age user_id tbl)"
    by (simp add: archive_old_entries_def)
  moreover have "x = a" if "x \<in> set (archive_old_entries now age user_id tbl)" "je_id x = je_id a" for x
  proof -
    from that(1) obtain y where y: "y \<in> set tbl"
      "x = (if archive_where now age user_id y then y\<lparr>je_is_archived := Some True\<rparr> else y)"
      by (auto simp: archive_old_entries_def)
    then have "je_id y = je_id a" using that(2) by (auto split: if_splits)
    with y(1) assms have "y = a" by (simp add: held_archived_def)
    with y(2) na show ?thesis by simp
  qed
  ultimately show ?thesis using assms by (simp add: held_archived_def)
qed

lemma held_archived_step: "held_archived a tbl \<Longrightarrow> held_archived a (journal_step tbl w)"
  by (cases w) (auto simp: held_archived_archive split: sum.splits dest: held_archived_insert)

lemma held_archived_run: "held_archived a tbl \<Longrightarrow> held_archived a (journal_run tbl ws)"
  unfolding journal_run_def
  by (induction ws arbitrary: tbl) (simp_all add: held_archived_step)

lemma archive_holds:
  assumes "distinct (map je_id tbl)" "r \<in> set tbl" "archive_where now age user_id r"
  shows "held_archived (r\<lparr>je_is_archived := Some True\<rparr>) (archive_old_entries now age user_id tbl)"
proof -
  define a where "a = r\<lparr>je_is_archived := Some True\<rparr>"
  define f where "f = (\<lambda>r. if archive_where now age user_id r then r\<lparr>je_is_archived := Some True\<rparr> else r)"
  have fr: "f r = a" using assms(3) by (simp add: f_def a_def)
  have ida: "je_id a = je_id r" and arch: "je_is_archived a = Some True"
    by (simp_all add: a_def)
  have idf: "je_id (f y) = je_id y" for y by (simp add: f_def)
  have tbl': "archive_old_entries now age user_id tbl = map f tbl"
    by (simp add: archive_old_entries_def f_def)
  from assms(1) have inj: "inj_on je_id (set tbl)" by (simp add: distinct_map)
  have mem: "a \<in> set (map f tbl)"
    using assms(2) fr by (metis image_eqI set_map)
  have uniq: "x = a" if "x \<in> set (map f tbl)" "je_id x = je_id a" for x
  proof -
    from that(1) obtain y where y: "y \<in> set tbl" "x = f y" by auto
    with that(2) have eq: "je_id y = je_id r" by (simp add: idf ida)
    have "y = r" by (rule inj_onD[OF inj eq y(1) assms(2)])
    with y(2) fr show ?thesis by simp
  qed
  have "held_archived a (map f tbl)"
    unfolding held_archived_def using mem arch uniq by blast
  then show ?thesis by (simp add: tbl' a_def)
qed

lemma match_rows_from:
  assumes "match_journal_entries cdist tbl q t n u = Inr rows" "res \<in> set rows"
  shows "\<exists>x\<in>set tbl. match_where cdist q t u x = Inr True \<and> res = match_select cdist q x"
proof -
  from assms(1) obtain hits where
    hits: "sql_where (match_where cdist q t u) tbl = Inr hits"
    and rows: "rows = map (match_select cdist q) (take (nat n) (sort_key (match_order cdist q) hits))"
    by (auto simp: match_journal_entries_def sql_limit_def split: if_splits sum.splits)
  from sql_where_Inr[OF hits]
  have hits_eq: "hits = filter (\<lambda>r. match_where cdist q t u r = Inr True) tbl" .
  from assms(2) rows obtain x where
    "x \<in> set (take (nat n) (sort_key (match_order cdist q) hits))" "res = match_select cdist q x"
    by auto
  then show ?thesis unfolding hits_eq by (auto dest!: in_set_takeD)
qed

lemma recent_rows_from:
  assumes "get_recent_journal_entries tbl u n = Inr rows" "res \<in> set rows"
  shows "\<exists>x\<in>set tbl. recent_where u x \<and> res = recent_select x"
proof -
  from assms(1) have "rows = map recent_select (take (nat n)
      (sort_key (\<lambda>r. desc_nulls_first (je_created_at r)) (filter (recent_where u) tbl)))"
    by (auto simp: get_recent_journal_entries_def sql_limit_def split: if_splits)
  with assms(2) obtain x where "x \<in> set (take (nat n)
      (sort_key (\<lambda>r. desc_nulls_first (je_created_at r)) (filter (recent_where u) tbl)))"
      "res = recent_select x"
    by auto
  then show ?thesis by (auto dest!: in_set_takeD)
qed

lemma held_archived_not_matched:
  assumes "held_archived a tbl" "match_journal_entries cdist tbl q t n u = Inr rows"
  shows "je_id a \<notin> m_id ` set rows"
proof
  assume "je_id a \<in> m_id ` set rows"
  then obtain res where res: "res \<in> set rows" "m_id res = je_id a" by auto
  from match_rows_from[OF assms(2) res(1)] obtain x where
    x: "x \<in> set tbl" "match_where cdist q t u x = Inr True" "res = match_select cdist q x"
    by blast
  from x(3) res(2) have "je_id x = je_id a" by (simp add: match_select_def)
  with assms(1) x(1) have "x = a" by (simp add: held_archived_def)
  moreover from match_where_True[OF x(2)] have "je_is_archived x = Some False" by blast
  ultimately show False using assms(1) by (simp add: held_archived_def)
qed

lemma held_archived_not_recent:
  assumes "held_archived a tbl" "get_recent_journal_entries tbl u n = Inr rows"
  shows "je_id a \<notin> r_id ` set rows"
proof
  assume "je_id a \<in> r_id ` set rows"
  then obtain res where res: "res \<in> set rows" "r_id res = je_id a" by auto
  from recent_rows_from[OF assms(2) res(1)] obtain x where
    x: "x \<in> set tbl" "recent_where u x" "res = recent_select x"
    by blast
  from x(3) res(2) have "je_id x = je_id a" by (simp add: recent_select_def)
  with assms(1) x(1) have "x = a" by (simp add: held_archived_def)
  with assms(1) x(2) show False by (simp add: held_archived_def recent_where_def)
qed


lemma demo_journal_run:
  "journal_run (archive_old_entries 400 365 7 demo_entries) demo_writes =
     [ demo_entry 1 7 ''anxious about work'' (Some [1/5]) (Some True) 10,
       demo_entry 2 7 ''walk, felt calm'' (Some [1/10]) (Some True) 20,
       demo_entry 3 7 ''no embedding'' None (Some True) 30,
       demo_entry 4 7 ''old'' (Some [0]) (Some True) 5,
       demo_entry 5 8 ''other user'' (Some [0]) (Some False) 40,
       demo_entry 9 7 ''a later entry'' None (Some False) 500 ]"
  by (simp add: journal_run_def demo_writes_def demo_users_def demo_entries_def demo_entry_def
      archive_old_entries_def archive_where_def insert_journal_entry_def Let_def)

lemma demo_match_after_writes:
  "match_journal_entries demo_distance
     (journal_run (archive_old_entries 400 365 7 demo_entries) demo_writes) [0] (Finite (1/2)) 5 7 = Inr []"
  unfolding demo_journal_run
  by (simp add: match_journal_entries_def demo_entry_def match_where_def sql_limit_def)

section \<open>Archiving\<close>

text \<open>
  C6. Take a table with unique ids and an entry \<open>r\<close> of it that the archiving
  statement selects. After the statement, and after any further history of inserts and
  archiving statements, the row is still in the table, marked archived and otherwise as
  it was, and its id is in no answer of \<open>match_journal_entries\<close> and in no answer of
  \<open>get_recent_journal_entries\<close>, whatever their arguments.
\<close>

theorem archived_entry_stays_hidden:
  assumes "distinct (map je_id tbl)" and "r \<in> set tbl" and "archive_where now age owner r"
  shows "r\<lparr>je_is_archived := Some True\<rparr> \<in> set (journal_run (archive_old_entries now age owner tbl) ws)
    \<and> (\<forall>cdist q t n u rows.
          match_journal_entries cdist (journal_run (archive_old_entries now age owner tbl) ws) q t n u = Inr rows
          \<longrightarrow> je_id r \<notin> m_id ` set rows)
    \<and> (\<forall>u n rows.
          get_recent_journal_entries (journal_run (archive_old_entries now age owner tbl) ws) u n = Inr rows
          \<longrightarrow> je_id r \<notin> r_id ` set rows)"
proof -
  let ?a = "r\<lparr>je_is_archived := Some True\<rparr>"
  have h: "held_archived ?a (journal_run (archive_old_entries now age owner tbl) ws)"
    by (rule held_archived_run) (rule archive_holds[OF assms])
  then have "?a \<in> set (journal_run (archive_old_entries now age owner tbl) ws)"
    by (simp add: held_archived_def)
  moreover have "je_id r \<notin> m_id ` set rows"
    if "match_journal_entries cdist (journal_run (archive_old_entries now age owner tbl) ws) q t n u = Inr rows"
    for cdist q t n u rows
    using held_archived_not_matched[OF h that] by simp
  moreover have "je_id r \<notin> r_id ` set rows"
    if "get_recent_journal_entries (journal_run (archive_old_entries now age owner tbl) ws) u n = Inr rows"
    for u n rows
    using held_archived_not_recent[OF h that] by simp
  ultimately show ?thesis by blast
qed

theorem archived_entry_stays_hidden_witness:
  "distinct (map je_id demo_entries)
   \<and> hd demo_entries \<in> set demo_entries
   \<and> archive_where 400 365 7 (hd demo_entries)
   \<and> (hd demo_entries)\<lparr>je_is_archived := Some True\<rparr>
        \<in> set (journal_run (archive_old_entries 400 365 7 demo_entries) demo_writes)
   \<and> (\<exists>rows. match_journal_entries demo_distance
                 (journal_run (archive_old_entries 400 365 7 demo_entries) demo_writes) [0] (Finite (1/2)) 5 7 = Inr rows
          \<and> je_id (hd demo_entries) \<notin> m_id ` set rows)
   \<and> (\<exists>rows. get_recent_journal_entries
                 (journal_run (archive_old_entries 400 365 7 demo_entries) demo_writes) 7 5 = Inr rows
          \<and> je_id (hd demo_entries) \<notin> r_id ` set rows)"
proof -
  have h1: "distinct (map je_id demo_entries)"
    by (simp add: demo_entries_def demo_entry_def)
  have h2: "hd demo_entries \<in> set demo_entries"
    by (simp add: demo_entries_def)
  have h3: "archive_where 400 365 7 (hd demo_entries)"
    by (simp add: demo_entries_def demo_entry_def archive_where_def)
  note hidden = archived_entry_stays_hidden[OF h1 h2 h3, of demo_writes]
  obtain ms where ms: "match_journal_entries demo_distance
      (journal_run (archive_old_entries 400 365 7 demo_entries) demo_writes) [0] (Finite (1/2)) 5 7 = Inr ms"
    using demo_match_after_writes by blast
  from recent_total[of 5 "journal_run (archive_old_entries 400 365 7 demo_entries) demo_writes" 7]
  obtain rs where rs: "get_recent_journal_entries
      (journal_run (archive_old_entries 400 365 7 demo_entries) demo_writes) 7 5 = Inr rs"
    by auto
  from hidden ms have "je_id (hd demo_entries) \<notin> m_id ` set ms" by blast
  moreover from hidden rs have "je_id (hd demo_entries) \<notin> r_id ` set rs" by blast
  ultimately show ?thesis using h1 h2 h3 hidden ms rs by blast
qed

section \<open>Appending when the embedding provider fails\<close>

lemma ingest_journal_raises:
  "embed_content content = Inl x \<Longrightarrow>
     ingest_journal embed_content up users new_id now tbl user_id content = (tbl, Inl x)"
  by (simp add: ingest_journal_def generate_embedding_def)

lemma ingest_journal_stores_embedding:
  assumes "ingest_journal embed_content up users new_id now tbl user_id content = (tbl', Inr ())"
  shows "\<exists>v e. embed_content content = Inr v \<and> tbl' = tbl @ [e] \<and> je_id e = new_id
           \<and> je_user_id e = user_id \<and> je_content e = content \<and> je_embedding e = Some v"
  using assms
  by (auto simp: ingest_journal_def generate_embedding_def insert_journal_entry_def Let_def
      split: sum.splits if_splits)

text \<open>
  C5. \<open>ingest_journal\<close> computes the embedding before the insert and has no \<open>try\<close>, so
  a failure of the provider is a failure of the call: with a provider that raises
  \<open>quota exceeded\<close>, the database reachable, the user known and the generated id fresh,
  appending \<open>today was fine\<close> for user 7 raises the provider's exception and leaves the
  table as it was, and the recent entries of user 7 are the three there were before.
\<close>

theorem ingest_journal_provider_failure:
  "ingest_journal failing_provider True demo_users 6 50 demo_entries 7 ''today was fine''
     = (demo_entries, Inl (ProviderError ''quota exceeded''))
   \<and> 7 \<in> set demo_users \<and> 6 \<notin> set (map je_id demo_entries)
   \<and> get_recent_journal_entries
       (fst (ingest_journal failing_provider True demo_users 6 50 demo_entries 7 ''today was fine'')) 7 5
     = Inr [\<lparr>r_id = 3, r_content = ''no embedding'', r_created_at = Some 30\<rparr>,
            \<lparr>r_id = 2, r_content = ''walk, felt calm'', r_created_at = Some 20\<rparr>,
            \<lparr>r_id = 1, r_content = ''anxious about work'', r_created_at = Some 10\<rparr>]"
  by (simp add: ingest_journal_def generate_embedding_def failing_provider_def demo_users_def
      demo_entries_def demo_entry_def get_recent_journal_entries_def recent_where_def
      recent_select_def sql_limit_def desc_nulls_first_def)

text \<open>
  What the two read paths do with an entry that was stored with no embedding (the
  request handlers store one when \<open>get_embedding\<close> returns \<open>None\<close>): no answer of
  \<open>match_journal_entries\<close> contains it; \<open>get_recent_journal_entries\<close> for the owner
  contains it whenever the count covers the owner's unarchived entries, and puts it
  first for every count of at least one when the owner's other unarchived entries were
  created earlier.
\<close>

lemma entry_without_embedding_read_paths:
  assumes "new_id \<notin> set (map je_id tbl)" and "owner \<in> set users"
  shows "\<exists>tbl' e.
      insert_journal_entry True users new_id now tbl owner content None tags = Inr (tbl', e)
    \<and> e \<in> set tbl' \<and> je_id e = new_id \<and> je_user_id e = owner \<and> je_content e = content
    \<and> je_embedding e = None
    \<and> (\<forall>cdist q t n u rows.
          match_journal_entries cdist tbl' q t n u = Inr rows \<longrightarrow> new_id \<notin> m_id ` set rows)
    \<and> (\<forall>n. int (length (filter (recent_where owner) tbl')) \<le> n \<longrightarrow>
          (\<exists>rows. get_recent_journal_entries tbl' owner n = Inr rows \<and> recent_select e \<in> set rows))
    \<and> ((\<forall>r\<in>set tbl. recent_where owner r \<longrightarrow> (\<exists>c. je_created_at r = Some c \<and> c < now)) \<longrightarrow>
          (\<forall>n\<ge>1. \<exists>rows. get_recent_journal_entries tbl' owner n = Inr (recent_select e # rows)))"
proof -
  define e where "e = \<lparr> je_id = new_id, je_user_id = owner, je_content = content,
                     je_embedding = None, je_mood_tags = tags, je_topics = None,
                     je_embedding_model = Some ''gemini-text-embedding-004'',
                     je_is_archived = Some False, je_public_visibility = Some False,
                     je_created_at = Some now \<rparr>"
  define tbl' where "tbl' = tbl @ [e]"
  define key where "key = (\<lambda>r::journal_entry. desc_nulls_first (je_created_at r))"
  have run: "insert_journal_entry True users new_id now tbl owner content None tags = Inr (tbl', e)"
    using insert_journal_entry_ok[OF assms]
    by (simp add: tbl'_def e_def)
  have fields: "je_id e = new_id" "je_user_id e = owner" "je_content e = content"
    "je_embedding e = None" "je_is_archived e = Some False" "je_created_at e = Some now"
    by (simp_all add: e_def)
  have mem: "e \<in> set tbl'" by (simp add: tbl'_def)
  have rw: "recent_where owner e" by (simp add: recent_where_def fields)
  have flt: "filter (recent_where owner) tbl' = filter (recent_where owner) tbl @ [e]"
    by (simp add: tbl'_def rw)
  have no_match: "new_id \<notin> m_id ` set rows"
    if m: "match_journal_entries cdist tbl' q t n u = Inr rows" for cdist q t n u rows
  proof
    assume "new_id \<in> m_id ` set rows"
    then obtain res where res: "res \<in> set rows" "m_id res = new_id" by auto
    from match_rows_from[OF m res(1)] obtain x where
      x: "x \<in> set tbl'" "match_where cdist q t u x = Inr True" "res = match_select cdist q x" by blast
    from x(3) res(2) have "je_id x = new_id" by (simp add: match_select_def)
    with x(1) assms(1) have "x = e" by (auto simp: tbl'_def)
    moreover from match_where_True[OF x(2)] have "je_embedding x \<noteq> None" by auto
    ultimately show False by (simp add: fields)
  qed
  have all: "\<exists>rows. get_recent_journal_entries tbl' owner n = Inr rows \<and> recent_select e \<in> set rows"
    if n: "int (length (filter (recent_where owner) tbl')) \<le> n" for n
  proof -
    have "length (sort_key key (filter (recent_where owner) tbl')) \<le> nat n"
      using n by simp
    then have "take (nat n) (sort_key key (filter (recent_where owner) tbl'))
        = sort_key key (filter (recent_where owner) tbl')"
      by simp
    moreover have "0 \<le> n" using n by linarith
    ultimately have "get_recent_journal_entries tbl' owner n
        = Inr (map recent_select (sort_key key (filter (recent_where owner) tbl')))"
      by (simp add: get_recent_journal_entries_def sql_limit_def key_def)
    moreover have "e \<in> set (sort_key key (filter (recent_where owner) tbl'))"
      by (simp add: flt)
    ultimately show ?thesis by auto
  qed
  have newest: "\<exists>rows. get_recent_journal_entries tbl' owner n = Inr (recent_select e # rows)"
    if older: "\<forall>r\<in>set tbl. recent_where owner r \<longrightarrow> (\<exists>c. je_created_at r = Some c \<and> c < now)"
      and n: "1 \<le> n" for n
  proof -
    have "\<forall>x\<in>set (filter (recent_where owner) tbl). key e < key x"
      using older by (auto simp: key_def desc_nulls_first_def fields)
    then have "sort_key key (filter (recent_where owner) tbl')
        = e # sort_key key (filter (recent_where owner) tbl)"
      unfolding flt by (rule sort_key_snoc_min)
    moreover from n obtain k where "nat n = Suc k" by (cases "nat n") auto
    ultimately have "get_recent_journal_entries tbl' owner n
        = Inr (recent_select e # map recent_select (take k (sort_key key (filter (recent_where owner) tbl))))"
      using n by (simp add: get_recent_journal_entries_def sql_limit_def key_def)
    then show ?thesis by blast
  qed
  from run mem fields no_match all newest show ?thesis by blast
qed

lemma demo_entry_without_embedding:
  "\<exists>tbl' e. insert_journal_entry True demo_users 6 50 demo_entries 7 ''today was fine'' None None
        = Inr (tbl', e)
     \<and> get_recent_journal_entries tbl' 7 2
        = Inr [\<lparr>r_id = 6, r_content = ''today was fine'', r_created_at = Some 50\<rparr>,
               \<lparr>r_id = 3, r_content = ''no embedding'', r_created_at = Some 30\<rparr>]
     \<and> match_journal_entries demo_distance tbl' [0] (Finite (1/2)) 5 7
        = Inr [\<lparr>m_id = 2, m_content = ''walk, felt calm'', m_similarity = Some (Finite (9/10)), m_created_at = Some 20\<rparr>,
          \<lparr>m_id = 1, m_content = ''anxious about work'', m_similarity = Some (Finite (4/5)), m_created_at = Some 10\<rparr>]"
  by (simp add: insert_journal_entry_def demo_users_def demo_entries_def Let_def
      demo_entry_def get_recent_journal_entries_def recent_where_def recent_select_def sql_limit_def
      desc_nulls_first_def match_journal_entries_def demo_distance_def match_order_def
      match_where_def match_select_def cosine_distance_def asc_nulls_last_def
      float8_gt_def float8_key_def one_minus_def)

section \<open>Ending a session\<close>

lemma in_end_chat_session:
  "x \<in> set (end_chat_session t sid tbl)
     \<longleftrightarrow> (\<exists>s\<in>set tbl. x = (if cs_id s = sid then s\<lparr>cs_ended_at := Some t\<rparr> else s))"
  unfolding end_chat_session_def by (simp only: set_map image_iff)

lemma end_chat_session_twice:
  "end_chat_session t2 sid (end_chat_session t1 sid tbl) = end_chat_session t2 sid tbl"
  by (simp add: end_chat_session_def comp_def)

lemma end_chat_session_ids:
  "map cs_id (end_chat_session t sid tbl) = map cs_id tbl"
  by (simp add: end_chat_session_def comp_def)

lemma end_chat_session_ended:
  "\<forall>s\<in>set (end_chat_session t2 sid tbl). cs_id s = sid \<longrightarrow> cs_ended_at s = Some t2"
proof (intro ballI impI)
  fix s assume "s \<in> set (end_chat_session t2 sid tbl)" and sid: "cs_id s = sid"
  then obtain x where x: "s = (if cs_id x = sid then x\<lparr>cs_ended_at := Some t2\<rparr> else x)"
    unfolding in_end_chat_session by blast
  show "cs_ended_at s = Some t2"
  proof (cases "cs_id x = sid")
    case True
    with x have "s = x\<lparr>cs_ended_at := Some t2\<rparr>" by (simp only: if_True simp_thms)
    then show ?thesis by simp
  next
    case False
    with x have "s = x" by (simp only: if_False simp_thms)
    with sid False show ?thesis by blast
  qed
qed

lemma end_chat_session_others:
  "\<forall>s\<in>set tbl. cs_id s \<noteq> sid \<longrightarrow> s \<in> set (end_chat_session t2 sid tbl)"
proof (intro ballI impI)
  fix s assume s: "s \<in> set tbl" "cs_id s \<noteq> sid"
  then have "s = (if cs_id s = sid then s\<lparr>cs_ended_at := Some t2\<rparr> else s)"
    by (simp only: if_False simp_thms)
  with s(1) show "s \<in> set (end_chat_session t2 sid tbl)"
    unfolding in_end_chat_session by blast
qed

text \<open>
  C4 (as the code has it). The end-session statement has no guard on \<open>ended_at\<close>: every
  call writes the time of that call. Two calls leave the table that the second call
  alone would leave; no row is added or removed; afterwards every row with the session's
  id carries the time of the last call as its end time, and every other row is
  untouched. The statement cannot fail on an ended session, but it does change the
  stored end time.
\<close>

theorem end_session_last_call_wins:
  "end_chat_session t2 sid (end_chat_session t1 sid tbl) = end_chat_session t2 sid tbl
   \<and> map cs_id (end_chat_session t2 sid tbl) = map cs_id tbl
   \<and> (\<forall>s\<in>set (end_chat_session t2 sid (end_chat_session t1 sid tbl)).
         cs_id s = sid \<longrightarrow> cs_ended_at s = Some t2)
   \<and> (\<forall>s\<in>set tbl. cs_id s \<noteq> sid \<longrightarrow> s \<in> set (end_chat_session t2 sid (end_chat_session t1 sid tbl)))"
  unfolding end_chat_session_twice
  using end_chat_session_ids[of t2 sid tbl] end_chat_session_ended[of t2 sid tbl]
    end_chat_session_others[of tbl sid t2]
  by (intro conjI) (rule refl)

text \<open>
  The claim as stated, that ending twice leaves what ending once leaves, fails when the
  two calls read different clock values.
\<close>

theorem end_session_twice_counterexample:
  "end_chat_session 20 1 (end_chat_session 10 1 demo_sessions) \<noteq> end_chat_session 10 1 demo_sessions"
  by (simp add: end_chat_session_def demo_sessions_def demo_session_def)

theorem end_session_last_call_wins_witness:
  "end_chat_session 20 1 (end_chat_session 10 1 demo_sessions) = end_chat_session 20 1 demo_sessions
   \<and> map cs_id (end_chat_session 20 1 demo_sessions) = [1, 2, 3]
   \<and> map cs_ended_at (end_chat_session 20 1 (end_chat_session 10 1 demo_sessions)) = [Some 20, Some 60, None]
   \<and> map cs_ended_at (end_chat_session 10 1 demo_sessions) = [Some 10, Some 60, None]"
proof -
  have twice: "end_chat_session 20 1 (end_chat_session 10 1 demo_sessions) = end_chat_session 20 1 demo_sessions"
    using end_session_last_call_wins[of 20 1 10 demo_sessions] by (rule conjunct1)
  have a: "map cs_id (end_chat_session 20 1 demo_sessions) = [1, 2, 3]"
    by (simp add: end_chat_session_def demo_sessions_def demo_session_def)
  have b: "map cs_ended_at (end_chat_session 20 1 demo_sessions) = [Some 20, Some 60, None]"
    by (simp add: end_chat_session_def demo_sessions_def demo_session_def)
  have c: "map cs_ended_at (end_chat_session 10 1 demo_sessions) = [Some 10, Some 60, None]"
    by (simp add: end_chat_session_def demo_sessions_def demo_session_def)
  from twice a b c show ?thesis by (simp only: simp_thms)
qed

section \<open>The open session of an owner\<close>

lemma request_alone:
  "(case request_step up users new_id now tbl (Selecting u) of
      (tbl1, st1) \<Rightarrow> request_step up users new_id now tbl1 st1)
   = (case get_or_create_chat_session up users new_id now tbl u of
        Inl e \<Rightarrow> (tbl, Raised e)
      | Inr (tbl', s) \<Rightarrow> (tbl', Returned s))"
proof (cases "select_open_session up tbl u")
  case (Inl e)
  then show ?thesis by (simp add: request_step_def get_or_create_chat_session_def)
next
  case (Inr found)
  show ?thesis
  proof (cases found)
    case Nil
    with Inr show ?thesis
      by (cases "insert_chat_session up users new_id now tbl u")
         (auto simp: request_step_def get_or_create_chat_session_def)
  next
    case (Cons s rest)
    with Inr show ?thesis by (simp add: request_step_def get_or_create_chat_session_def)
  qed
qed

lemma sort_key_head_least:
  assumes "xs \<noteq> []"
  shows "\<exists>s rest. sort_key f xs = s # rest \<and> s \<in> set xs \<and> (\<forall>x\<in>set xs. f s \<le> f x)"
proof -
  from assms have "sort_key f xs \<noteq> []" by (metis length_sort length_0_conv)
  then obtain s rest where sr: "sort_key f xs = s # rest" by (cases "sort_key f xs") auto
  have "sorted (map f (sort_key f xs))" by (rule sorted_sort_key)
  with sr have "\<forall>x\<in>set (s # rest). f s \<le> f x" by auto
  moreover have "set (s # rest) = set xs" using sr by (metis set_sort)
  ultimately show ?thesis using sr by auto
qed

lemma desc_nulls_first_le:
  assumes "desc_nulls_first a \<le> desc_nulls_first b"
  shows "a = None \<or> (\<exists>t t'. a = Some t \<and> b = Some t' \<and> t' \<le> t)"
  using assms by (cases a; cases b) (simp_all add: desc_nulls_first_def)

lemma get_or_create_existing:
  assumes "filter (open_session_of u) tbl \<noteq> []"
  shows "\<exists>s. get_or_create_chat_session True users new_id now tbl u = Inr (tbl, s)
      \<and> s \<in> set tbl \<and> open_session_of u s
      \<and> (\<forall>s'\<in>set tbl. open_session_of u s' \<longrightarrow>
            desc_nulls_first (cs_started_at s) \<le> desc_nulls_first (cs_started_at s'))
      \<and> (cs_started_at s = None
          \<or> (\<forall>s'\<in>set tbl. open_session_of u s' \<longrightarrow>
                (\<exists>t t'. cs_started_at s = Some t \<and> cs_started_at s' = Some t' \<and> t' \<le> t)))"
proof -
  from sort_key_head_least[OF assms, of "\<lambda>s. desc_nulls_first (cs_started_at s)"]
  obtain s rest where sr:
    "sort_key (\<lambda>s. desc_nulls_first (cs_started_at s)) (filter (open_session_of u) tbl) = s # rest"
    "s \<in> set (filter (open_session_of u) tbl)"
    "\<forall>x\<in>set (filter (open_session_of u) tbl).
        desc_nulls_first (cs_started_at s) \<le> desc_nulls_first (cs_started_at x)"
    by blast
  from sr(1) have run: "get_or_create_chat_session True users new_id now tbl u = Inr (tbl, s)"
    by (simp add: get_or_create_chat_session_def select_open_session_def)
  from sr(3) have least: "\<forall>s'\<in>set tbl. open_session_of u s' \<longrightarrow>
      desc_nulls_first (cs_started_at s) \<le> desc_nulls_first (cs_started_at s')"
    by simp
  have "cs_started_at s = None
          \<or> (\<forall>s'\<in>set tbl. open_session_of u s' \<longrightarrow>
                (\<exists>t t'. cs_started_at s = Some t \<and> cs_started_at s' = Some t' \<and> t' \<le> t))"
  proof (cases "cs_started_at s")
    case None
    then show ?thesis by simp
  next
    case (Some t)
    have "\<exists>t0 t'. cs_started_at s = Some t0 \<and> cs_started_at s' = Some t' \<and> t' \<le> t0"
      if "s' \<in> set tbl" "open_session_of u s'" for s'
      using desc_nulls_first_le[of "cs_started_at s" "cs_started_at s'"] least that Some
      by auto
    then show ?thesis by blast
  qed
  with run sr(2) least show ?thesis by auto
qed

lemma get_or_create_new:
  assumes "filter (open_session_of u) tbl = []" "new_id \<notin> set (map cs_id tbl)" "u \<in> set users"
  shows "\<exists>s. get_or_create_chat_session True users new_id now tbl u = Inr (tbl @ [s], s)
      \<and> open_session_of u s \<and> cs_id s = new_id \<and> cs_started_at s = Some now"
  using assms
  by (simp add: get_or_create_chat_session_def select_open_session_def insert_chat_session_def
      Let_def open_session_of_def)

lemma get_or_create_unknown_user:
  assumes "filter (open_session_of u) tbl = []" "new_id \<notin> set (map cs_id tbl)" "u \<notin> set users"
  shows "get_or_create_chat_session True users new_id now tbl u = Inl (APIError ForeignKeyViolation)"
  using assms
  by (simp add: get_or_create_chat_session_def select_open_session_def insert_chat_session_def)

lemma get_or_create_shape:
  assumes "get_or_create_chat_session up users new_id now tbl u = Inr (tbl', s)"
  shows "tbl' = tbl \<or> (tbl' = tbl @ [s] \<and> filter (open_session_of u) tbl = [] \<and> cs_user_id s = u)"
proof (cases "select_open_session up tbl u")
  case (Inl e)
  with assms show ?thesis by (simp add: get_or_create_chat_session_def)
next
  case (Inr found)
  show ?thesis
  proof (cases found)
    case Nil
    with Inr have e: "filter (open_session_of u) tbl = []"
      by (auto simp: select_open_session_def split: if_splits)
         (metis length_sort length_0_conv)
    from Nil Inr assms have "insert_chat_session up users new_id now tbl u = Inr (tbl', s)"
      by (auto simp: get_or_create_chat_session_def split: sum.splits)
    then have "tbl' = tbl @ [s] \<and> cs_user_id s = u"
      by (auto simp: insert_chat_session_def Let_def split: if_splits)
    with e show ?thesis by simp
  next
    case (Cons x rest)
    with Inr assms show ?thesis by (simp add: get_or_create_chat_session_def)
  qed
qed

lemma length_filter_map_le:
  assumes "\<And>x. P (f x) \<Longrightarrow> P x"
  shows "length (filter P (map f xs)) \<le> length (filter P xs)"
  using assms by (induction xs) auto

lemma end_chat_session_open:
  "length (filter (open_session_of v) (end_chat_session now sid tbl))
     \<le> length (filter (open_session_of v) tbl)"
  unfolding end_chat_session_def
  by (rule length_filter_map_le) (simp add: open_session_of_def split: if_splits)

lemma session_step_open:
  assumes "\<forall>v. length (filter (open_session_of v) tbl) \<le> 1"
  shows "length (filter (open_session_of v) (session_step tbl c)) \<le> 1"
proof (cases c)
  case (GetOrCreate up users new_id now u)
  show ?thesis
  proof (cases "get_or_create_chat_session up users new_id now tbl u")
    case (Inl e)
    with GetOrCreate assms show ?thesis by simp
  next
    case (Inr r)
    obtain tbl' s where r: "r = (tbl', s)" by (cases r)
    from get_or_create_shape[OF Inr[unfolded r]]
    consider "tbl' = tbl"
      | "tbl' = tbl @ [s]" "filter (open_session_of u) tbl = []" "cs_user_id s = u"
      by blast
    then have "length (filter (open_session_of v) tbl') \<le> 1"
    proof cases
      case 1
      with assms show ?thesis by simp
    next
      case 2
      show ?thesis
      proof (cases "v = u")
        case True
        with 2 show ?thesis by simp
      next
        case False
        with 2(3) have "\<not> open_session_of v s" by (simp add: open_session_of_def)
        with 2(1) assms show ?thesis by simp
      qed
    qed
    with GetOrCreate Inr r show ?thesis by simp
  qed
next
  case (EndSession now sid)
  with assms end_chat_session_open[of v now sid tbl] show ?thesis
    by (metis le_trans session_step.simps(2))
qed

lemma session_run_open:
  assumes "\<forall>v. length (filter (open_session_of v) tbl) \<le> 1"
  shows "length (filter (open_session_of v) (session_run tbl cs)) \<le> 1"
  using assms unfolding session_run_def
proof (induction cs arbitrary: tbl v)
  case Nil
  then show ?case by simp
next
  case (Cons c cs)
  have "\<forall>v. length (filter (open_session_of v) (session_step tbl c)) \<le> 1"
    using session_step_open[OF Cons.prems] by blast
  from Cons.IH[OF this] show ?case by simp
qed

text \<open>
  C3 (as the code has it). With the database reachable and one call running at a time:
  when the owner has an open session, \<open>get_or_create_chat_session\<close> leaves the table as
  it is and returns the open session of the owner that \<open>ORDER BY started_at DESC\<close> lists
  first, which is one whose start time is NULL if the owner has such an open session,
  and otherwise one that no open session of the owner was started after; when the owner
  has none and the generated id is fresh, it appends one open session for the owner,
  started now, and returns it if the owner is a row of \<open>auth.users\<close>, and raises the
  foreign key violation and stores nothing if not. A history of such calls and
  end-session statements that starts with at most one open session per owner keeps at
  most one open session per owner.
\<close>

theorem get_or_create_one_call_at_a_time:
  "(filter (open_session_of u) tbl \<noteq> [] \<longrightarrow>
      (\<exists>s. get_or_create_chat_session True users new_id now tbl u = Inr (tbl, s)
         \<and> s \<in> set tbl \<and> open_session_of u s
         \<and> (\<forall>s'\<in>set tbl. open_session_of u s' \<longrightarrow>
               desc_nulls_first (cs_started_at s) \<le> desc_nulls_first (cs_started_at s'))
         \<and> (cs_started_at s = None
             \<or> (\<forall>s'\<in>set tbl. open_session_of u s' \<longrightarrow>
                   (\<exists>t t'. cs_started_at s = Some t \<and> cs_started_at s' = Some t' \<and> t' \<le> t)))))
   \<and> (filter (open_session_of u) tbl = [] \<and> new_id \<notin> set (map cs_id tbl) \<and> u \<in> set users \<longrightarrow>
      (\<exists>s. get_or_create_chat_session True users new_id now tbl u = Inr (tbl @ [s], s)
         \<and> open_session_of u s \<and> cs_id s = new_id \<and> cs_started_at s = Some now))
   \<and> (filter (open_session_of u) tbl = [] \<and> new_id \<notin> set (map cs_id tbl) \<and> u \<notin> set users \<longrightarrow>
      get_or_create_chat_session True users new_id now tbl u = Inl (APIError ForeignKeyViolation))
   \<and> ((\<forall>v. length (filter (open_session_of v) tbl) \<le> 1) \<longrightarrow>
        (\<forall>v. length (filter (open_session_of v) (session_run tbl calls)) \<le> 1))"
proof (intro conjI impI)
  assume "filter (open_session_of u) tbl \<noteq> []"
  then show "\<exists>s. get_or_create_chat_session True users new_id now tbl u = Inr (tbl, s)
         \<and> s \<in> set tbl \<and> open_session_of u s
         \<and> (\<forall>s'\<in>set tbl. open_session_of u s' \<longrightarrow>
               desc_nulls_first (cs_started_at s) \<le> desc_nulls_first (cs_started_at s'))
         \<and> (cs_started_at s = None
             \<or> (\<forall>s'\<in>set tbl. open_session_of u s' \<longrightarrow>
                   (\<exists>t t'. cs_started_at s = Some t \<and> cs_started_at s' = Some t' \<and> t' \<le> t)))"
    by (rule get_or_create_existing)
next
  assume "filter (open_session_of u) tbl = [] \<and> new_id \<notin> set (map cs_id tbl) \<and> u \<in> set users"
  then show "\<exists>s. get_or_create_chat_session True users new_id now tbl u = Inr (tbl @ [s], s)
         \<and> open_session_of u s \<and> cs_id s = new_id \<and> cs_started_at s = Some now"
    using get_or_create_new[of u tbl new_id users now] by blast
next
  assume "filter (open_session_of u) tbl = [] \<and> new_id \<notin> set (map cs_id tbl) \<and> u \<notin> set users"
  then show "get_or_create_chat_session True users new_id now tbl u = Inl (APIError ForeignKeyViolation)"
    using get_or_create_unknown_user[of u tbl new_id users now] by blast
next
  assume "\<forall>v. length (filter (open_session_of v) tbl) \<le> 1"
  then show "\<forall>v. length (filter (open_session_of v) (session_run tbl calls)) \<le> 1"
    using session_run_open[of tbl _ calls] by blast
qed

text \<open>
  No constraint of \<open>chat_sessions\<close> enforces this. Two requests for the same owner, a
  row of \<open>auth.users\<close>, whose database calls alternate both find no open session and
  both insert one: the claim that two open sessions are never produced fails.
\<close>

theorem get_or_create_race_counterexample:
  "interleave demo_users (11, 100) (12, 101) [True, False, True, False] ([], Selecting 7, Selecting 7)
     = ([demo_session 11 7 100 None, demo_session 12 7 101 None],
        Returned (demo_session 11 7 100 None), Returned (demo_session 12 7 101 None))
   \<and> length (filter (open_session_of 7) [demo_session 11 7 100 None, demo_session 12 7 101 None]) = 2"
  by (simp add: request_step_def select_open_session_def insert_chat_session_def
      open_session_of_def demo_session_def demo_users_def Let_def)

lemma demo_session_run:
  "session_run [] demo_calls = [demo_session 11 7 100 (Some 150), demo_session 14 7 200 None]"
  by (simp add: session_run_def demo_calls_def get_or_create_chat_session_def
      select_open_session_def insert_chat_session_def end_chat_session_def open_session_of_def
      demo_session_def demo_users_def Let_def)

theorem get_or_create_one_call_at_a_time_witness:
  "filter (open_session_of 7) demo_sessions \<noteq> []
   \<and> (\<exists>s. get_or_create_chat_session True demo_users 9 300 demo_sessions 7 = Inr (demo_sessions, s)
          \<and> s \<in> set demo_sessions \<and> open_session_of 7 s \<and> cs_id s = 1)
   \<and> filter (open_session_of 7) ([] :: chat_session list) = []
   \<and> 11 \<notin> set (map cs_id ([] :: chat_session list))
   \<and> 7 \<in> set demo_users
   \<and> (\<exists>s. get_or_create_chat_session True demo_users 11 100 [] 7 = Inr ([] @ [s], s)
         \<and> open_session_of 7 s \<and> cs_id s = 11 \<and> cs_started_at s = Some 100)
   \<and> 99 \<notin> set demo_users
   \<and> get_or_create_chat_session True demo_users 11 100 [] 99 = Inl (APIError ForeignKeyViolation)
   \<and> length (filter (open_session_of 7) (session_run [] demo_calls)) \<le> 1"
proof -
  have h1: "filter (open_session_of 7) demo_sessions \<noteq> []"
    by (simp add: demo_sessions_def demo_session_def open_session_of_def)
  have h2: "filter (open_session_of u) ([] :: chat_session list) = []" for u by simp
  have h3: "11 \<notin> set (map cs_id ([] :: chat_session list))" by simp
  have h4: "\<forall>v. length (filter (open_session_of v) ([] :: chat_session list)) \<le> 1" by simp
  have h5: "7 \<in> set demo_users" by (simp add: demo_users_def)
  have h6: "99 \<notin> set demo_users" by (simp add: demo_users_def)
  from get_or_create_one_call_at_a_time
      [where u = 7 and tbl = demo_sessions and users = demo_users and new_id = 9 and now = 300] h1
  obtain s where s: "get_or_create_chat_session True demo_users 9 300 demo_sessions 7 = Inr (demo_sessions, s)"
    "s \<in> set demo_sessions" "open_session_of 7 s"
    by blast
  from s(2,3) have "cs_id s = 1"
    by (auto simp: demo_sessions_def demo_session_def open_session_of_def)
  with s have c1: "\<exists>s. get_or_create_chat_session True demo_users 9 300 demo_sessions 7 = Inr (demo_sessions, s)
          \<and> s \<in> set demo_sessions \<and> open_session_of 7 s \<and> cs_id s = 1"
    by blast
  from get_or_create_one_call_at_a_time
      [where u = 7 and tbl = "[]" and users = demo_users and new_id = 11 and now = 100] h2 h3 h5
  have c2: "\<exists>s. get_or_create_chat_session True demo_users 11 100 [] 7 = Inr ([] @ [s], s)
         \<and> open_session_of 7 s \<and> cs_id s = 11 \<and> cs_started_at s = Some 100"
    by blast
  from get_or_create_one_call_at_a_time
      [where u = 99 and tbl = "[]" and users = demo_users and new_id = 11 and now = 100] h2 h3 h6
  have c4: "get_or_create_chat_session True demo_users 11 100 [] 99 = Inl (APIError ForeignKeyViolation)"
    by blast
  from get_or_create_one_call_at_a_time
      [where u = 7 and tbl = "[]" and users = demo_users and new_id = 11 and now = 100
         and calls = demo_calls] h4
  have c3: "length (filter (open_session_of 7) (session_run [] demo_calls)) \<le> 1"
    by blast
  from h1 c1 h2 h3 h5 c2 h6 c4 c3 show ?thesis by (intro conjI)
qed

section \<open>Saving and loading the conversation state\<close>

lemma upsert_refused:
  "upsert_conversation_history conversation_history_unique True new_id now tbl u k st la
     = Inl NoUniqueConstraint"
  by (simp add: upsert_conversation_history_def conversation_history_unique_def)

lemma save_state_schema:
  "save_state conversation_history_unique cur up new_id now tbl u st k
     = (tbl, [ErrorSaving (APIError (if up then NoUniqueConstraint else ConnectionError))])"
  by (simp add: save_state_def upsert_conversation_history_def conversation_history_unique_def)

lemma in_update_rows:
  "x \<in> set (update_rows now wh assign tbl)
     \<longleftrightarrow> (\<exists>r\<in>set tbl. x = (if wh r then update_updated_at_column now (assign r) else r))"
  unfolding update_rows_def by (simp only: set_map image_iff)

lemma load_state_all_same:
  assumes "filter (state_key u k) tbl \<noteq> []"
    and "\<forall>r\<in>set tbl. state_key u k r \<longrightarrow> ch_agent_state r = Some st"
  shows "load_state True tbl u k = (Some st, [])"
proof -
  from sort_key_head_least[OF assms(1), of "\<lambda>r. desc_nulls_first (updated_at r)"]
  obtain s rest where sr:
    "sort_key (\<lambda>r. desc_nulls_first (updated_at r)) (filter (state_key u k) tbl) = s # rest"
    "s \<in> set (filter (state_key u k) tbl)"
    by blast
  from sr(2) assms(2) have "ch_agent_state s = Some st" by simp
  with sr(1) show ?thesis by (simp add: load_state_def select_conversation_def)
qed

text \<open>
  Had \<open>conversation_history\<close> a unique index on \<open>(user_id, session_key)\<close>, saving and then
  loading would return the saved state (for a session key and agent name that fit their
  columns, and a fresh generated id).
\<close>

lemma save_then_load_with_unique_index:
  assumes idx: "[''user_id'', ''session_key''] \<in> set uniques"
    and key_len: "length k \<le> 100"
    and agent_len: "case cur st of None \<Rightarrow> True | Some a \<Rightarrow> length a \<le> 50"
    and fresh: "new_id \<notin> set (map ch_id tbl)"
  shows "load_state True (fst (save_state uniques cur True new_id now tbl u st k)) u k = (Some st, [])"
proof (cases "\<exists>r\<in>set tbl. state_key u k r")
  case True
  define asg where "asg = (\<lambda>r::'a conversation_row. r\<lparr> ch_agent_state := Some st,
                             ch_last_agent := cur st, updated_at := Some now \<rparr>)"
  define tbl' where "tbl' = update_rows now (state_key u k) asg tbl"
  have not_long: "\<not> (100 < length k \<or> (case cur st of None \<Rightarrow> False | Some a \<Rightarrow> 50 < length a))"
    using key_len agent_len by (auto split: option.splits)
  have saved: "fst (save_state uniques cur True new_id now tbl u st k) = tbl'"
    using idx True not_long
    by (simp add: save_state_def upsert_conversation_history_def tbl'_def asg_def)
  have written: "state_key u k (update_updated_at_column now (asg r))
      \<and> ch_agent_state (update_updated_at_column now (asg r)) = Some st" if "state_key u k r" for r
    using that by (simp add: state_key_def update_updated_at_column_def asg_def)
  from True obtain r where r: "r \<in> set tbl" "state_key u k r" by blast
  then have "update_updated_at_column now (asg r) \<in> set tbl'"
    unfolding tbl'_def in_update_rows by (intro bexI[where x = r]) simp_all
  with written[OF r(2)] have ne: "filter (state_key u k) tbl' \<noteq> []"
    by (auto simp: filter_empty_conv)
  have "ch_agent_state x = Some st" if x: "x \<in> set tbl'" "state_key u k x" for x
  proof -
    from x(1) obtain y where y: "y \<in> set tbl"
      "x = (if state_key u k y then update_updated_at_column now (asg y) else y)"
      unfolding tbl'_def in_update_rows by blast
    show ?thesis
    proof (cases "state_key u k y")
      case True
      with y(2) written[OF True] show ?thesis by simp
    next
      case False
      with y(2) x(2) show ?thesis by simp
    qed
  qed
  then have "\<forall>r\<in>set tbl'. state_key u k r \<longrightarrow> ch_agent_state r = Some st" by blast
  from load_state_all_same[OF ne this] saved show ?thesis by simp
next
  case False
  define new where "new = \<lparr> updated_at = Some now, ch_id = new_id, ch_user_id = u,
      ch_session_key = k, ch_agent_state = Some st, ch_last_agent = cur st,
      ch_created_at = Some now \<rparr>"
  have not_long: "\<not> (100 < length k \<or> (case cur st of None \<Rightarrow> False | Some a \<Rightarrow> 50 < length a))"
    using key_len agent_len by (auto split: option.splits)
  have saved: "fst (save_state uniques cur True new_id now tbl u st k) = tbl @ [new]"
    using idx False not_long fresh
    by (simp add: save_state_def upsert_conversation_history_def new_def)
  have new_key: "state_key u k new" "ch_agent_state new = Some st"
    by (simp_all add: new_def state_key_def)
  then have ne: "filter (state_key u k) (tbl @ [new]) \<noteq> []" by simp
  have "\<forall>r\<in>set (tbl @ [new]). state_key u k r \<longrightarrow> ch_agent_state r = Some st"
    using False new_key by auto
  from load_state_all_same[OF ne this] saved show ?thesis by simp
qed

text \<open>
  C2. With the table as \<open>schema.sql\<close> declares it, the round trip fails: the upsert names
  \<open>(user_id, session_key)\<close> as its conflict target, the table has no unique index on
  these columns, the database refuses the statement, and \<open>save_state\<close> prints the
  exception and returns. On an empty table, saving a state and then loading it returns
  no state.
\<close>

theorem save_then_load_returns_absent:
  "save_state conversation_history_unique demo_current_agent True 1 10 [] 7 ''persona A'' ''default''
     = ([], [ErrorSaving (APIError NoUniqueConstraint)])
   \<and> load_state True
        (fst (save_state conversation_history_unique demo_current_agent True 1 10 [] 7 ''persona A'' ''default''))
        7 ''default''
     = (None, [])"
  by (simp add: save_state_schema load_state_def select_conversation_def)

text \<open>
  C7. For the same reason \<open>save_state\<close> never changes the table, whatever it is given:
  the latest write does not win. Here a state is stored, a second state is saved for the
  same owner and key, and loading still returns the first.
\<close>

theorem save_state_stores_nothing:
  "fst (save_state conversation_history_unique cur up new_id now tbl u st k) = tbl
   \<and> load_state True
        (fst (save_state conversation_history_unique demo_current_agent True 2 20
               demo_history 7 ''persona B'' ''default''))
        7 ''default''
     = (Some ''persona A'', [])"
  by (simp add: save_state_schema load_state_def select_conversation_def demo_history_def
      state_key_def)

text \<open>
  The README's way of saving does reach the table, and keeps every earlier state: each
  save with a fresh generated id adds a row for the key.
\<close>

lemma save_conversation_state_appends:
  assumes "new_id \<notin> set (map ch_id tbl)" and "length k \<le> 100"
    and "case cur st of None \<Rightarrow> True | Some a \<Rightarrow> length a \<le> 50"
  shows "\<exists>row. save_conversation_state cur True new_id now tbl u k st = Inr (tbl @ [row])
      \<and> state_key u k row \<and> ch_agent_state row = Some st \<and> ch_id row = new_id
      \<and> filter (state_key u k) (tbl @ [row]) = filter (state_key u k) tbl @ [row]"
proof -
  have not_long: "\<not> (100 < length k \<or> (case cur st of None \<Rightarrow> False | Some a \<Rightarrow> 50 < length a))"
    using assms(2,3) by (auto split: option.splits)
  show ?thesis
    using assms(1) not_long
    by (simp add: save_conversation_state_def state_key_def)
qed

lemma demo_readme_save_keeps_history:
  "save_conversation_state demo_current_agent True 2 20 demo_history 7 ''default'' ''persona B''
     = Inr (demo_history @
            [ \<lparr> updated_at = Some 20, ch_id = 2, ch_user_id = 7, ch_session_key = ''default'',
                ch_agent_state = Some ''persona B'', ch_last_agent = Some ''router'',
                ch_created_at = Some 20 \<rparr> ])
   \<and> map ch_agent_state (filter (state_key 7 ''default'')
        (demo_history @
            [ \<lparr> updated_at = Some 20, ch_id = 2, ch_user_id = 7, ch_session_key = ''default'',
                ch_agent_state = Some ''persona B'', ch_last_agent = Some ''router'',
                ch_created_at = Some 20 \<rparr> ]))
     = [Some ''persona A'', Some ''persona B'']"
  by (simp add: save_conversation_state_def demo_history_def demo_current_agent_def state_key_def)

section \<open>The \<open>updated_at\<close> trigger\<close>

lemma update_rows_nth:
  assumes "i < length tbl"
  shows "update_rows now wh assign tbl ! i
           = (if wh (tbl ! i) then update_updated_at_column now (assign (tbl ! i)) else tbl ! i)"
  using assms by (simp add: update_rows_def)

lemma updated_at_update_rows:
  "map updated_at (update_rows now wh assign tbl) = touch now wh tbl (map updated_at tbl)"
  by (induction tbl) (simp_all add: update_rows_def touch_def update_updated_at_column_def)

lemma write_history_written:
  assumes "map updated_at tbl = written"
  shows "map updated_at (fst (write_history (tbl, written) ws)) = snd (write_history (tbl, written) ws)"
  using assms
proof (induction ws arbitrary: tbl written)
  case Nil
  then show ?case by simp
next
  case (Cons stmt ws)
  show ?case
  proof (cases stmt)
    case (UpdateStmt now wh assign)
    have "map updated_at (update_rows now wh assign tbl) = touch now wh tbl written"
      using updated_at_update_rows[of now wh assign tbl] Cons.prems by simp
    from Cons.IH[OF this] show ?thesis by (simp add: UpdateStmt)
  next
    case (InsertStmt now r)
    have "map updated_at (tbl @ [r\<lparr>updated_at := Some now\<rparr>]) = written @ [Some now]"
      using Cons.prems by simp
    from Cons.IH[OF this] show ?thesis by (simp add: InsertStmt)
  qed
qed

text \<open>
  C10. On a table with the trigger (\<open>user_profiles\<close>, \<open>conversation_history\<close>), an
  \<open>UPDATE\<close> run at time \<open>now\<close> leaves \<open>updated_at = now\<close> on every row it selects,
  whatever its \<open>SET\<close> clause assigns, leaves every other row as it was, and adds or
  removes no row. So over any history of updates and of inserts that take \<open>NOW()\<close> for
  \<open>updated_at\<close>, if \<open>updated_at\<close> held the time of each row's last write at the start,
  it does at the end.
\<close>

theorem updated_at_is_time_of_last_update:
  "(\<forall>i<length tbl. wh (tbl ! i) \<longrightarrow>
       updated_at (update_rows now wh assign tbl ! i) = Some now)
   \<and> (\<forall>i<length tbl. \<not> wh (tbl ! i) \<longrightarrow> update_rows now wh assign tbl ! i = tbl ! i)
   \<and> length (update_rows now wh assign tbl) = length tbl
   \<and> (map updated_at tbl = written \<longrightarrow>
        map updated_at (fst (write_history (tbl, written) ws))
          = snd (write_history (tbl, written) ws))"
proof (intro conjI allI impI)
  fix i assume "i < length tbl" "wh (tbl ! i)"
  then show "updated_at (update_rows now wh assign tbl ! i) = Some now"
    by (simp add: update_rows_nth update_updated_at_column_def)
next
  fix i assume "i < length tbl" "\<not> wh (tbl ! i)"
  then show "update_rows now wh assign tbl ! i = tbl ! i"
    by (simp add: update_rows_nth)
next
  show "length (update_rows now wh assign tbl) = length tbl"
    by (simp add: update_rows_def)
next
  assume "map updated_at tbl = written"
  then show "map updated_at (fst (write_history (tbl, written) ws))
          = snd (write_history (tbl, written) ws)"
    by (rule write_history_written)
qed

lemma demo_write_history:
  "map updated_at (fst (write_history (demo_profiles, [Some 3]) demo_profile_writes)) = [Some 60, Some 70]
   \<and> snd (write_history (demo_profiles, [Some 3]) demo_profile_writes) = [Some 60, Some 70]"
  by (simp add: demo_profile_writes_def demo_profiles_def update_rows_def touch_def
      update_updated_at_column_def)

theorem updated_at_is_time_of_last_update_witness:
  "0 < length demo_history
   \<and> ch_user_id (demo_history ! 0) = 7
   \<and> updated_at (update_rows 50 (\<lambda>r. ch_user_id r = 7)
        (\<lambda>r. r\<lparr>ch_agent_state := Some ''persona B'', updated_at := Some 1\<rparr>) demo_history ! 0) = Some 50
   \<and> 0 < length demo_profiles
   \<and> up_id (demo_profiles ! 0) = 7
   \<and> updated_at (update_rows 60 (\<lambda>r. up_id r = 7)
        (\<lambda>r. r\<lparr>up_theme_preference := Some ''light''\<rparr>) demo_profiles ! 0) = Some 60
   \<and> map updated_at demo_profiles = [Some 3]
   \<and> map updated_at (fst (write_history (demo_profiles, [Some 3]) demo_profile_writes))
      = snd (write_history (demo_profiles, [Some 3]) demo_profile_writes)"
proof -
  have h1: "0 < length demo_history" and h2: "ch_user_id (demo_history ! 0) = 7"
    by (simp_all add: demo_history_def)
  have h3: "0 < length demo_profiles" and h4: "up_id (demo_profiles ! 0) = 7"
    and h5: "map updated_at demo_profiles = [Some 3]"
    by (simp_all add: demo_profiles_def)
  note on_history = updated_at_is_time_of_last_update
    [of demo_history "\<lambda>r. ch_user_id r = 7" 50
        "\<lambda>r. r\<lparr>ch_agent_state := Some ''persona B'', updated_at := Some 1\<rparr>"]
  note on_profiles = updated_at_is_time_of_last_update
    [of demo_profiles "\<lambda>r. up_id r = 7" 60 "\<lambda>r. r\<lparr>up_theme_preference := Some ''light''\<rparr>"
        "[Some 3]" demo_profile_writes]
  have c1: "updated_at (update_rows 50 (\<lambda>r. ch_user_id r = 7)
        (\<lambda>r. r\<lparr>ch_agent_state := Some ''persona B'', updated_at := Some 1\<rparr>) demo_history ! 0) = Some 50"
    by (rule on_history[THEN conjunct1, rule_format, OF h1 h2])
  have c2: "updated_at (update_rows 60 (\<lambda>r. up_id r = 7)
        (\<lambda>r. r\<lparr>up_theme_preference := Some ''light''\<rparr>) demo_profiles ! 0) = Some 60"
    by (rule on_profiles[THEN conjunct1, rule_format, OF h3 h4])
  have c3: "map updated_at (fst (write_history (demo_profiles, [Some 3]) demo_profile_writes))
      = snd (write_history (demo_profiles, [Some 3]) demo_profile_writes)"
    by (rule on_profiles[THEN conjunct2, THEN conjunct2, THEN conjunct2, rule_format, OF h5])
  from h1 h2 c1 h3 h4 c2 h5 c3 show ?thesis by (intro conjI)
qed

section \<open>Database failures\<close>

text \<open>
  C9 (as the code has it). When the database cannot be reached, the three methods of
  \<open>ConversationStore\<close> do not raise: \<open>load_state\<close> returns no state, \<open>save_state\<close> and
  \<open>clear_state\<close> return with the table unchanged, and each only prints the exception.
  \<open>get_or_create_chat_session\<close>, which has no \<open>try\<close>, raises it, and
  \<open>process_follow_up\<close> answers with an HTTP 500 that carries it.
\<close>

theorem conversation_store_absorbs_failures:
  "load_state False tbl u k = (None, [ErrorLoading (APIError ConnectionError)])
   \<and> save_state uniques cur False new_id now tbl u st k = (tbl, [ErrorSaving (APIError ConnectionError)])
   \<and> clear_state False tbl u k = (tbl, [ErrorClearing (APIError ConnectionError)])
   \<and> get_or_create_chat_session False users sid now sessions u = Inl (APIError ConnectionError)
   \<and> (\<not> conn env 0 \<longrightarrow>
        process_follow_up env db request = (db, Inl (HTTPException 500 (APIError ConnectionError))))"
  by (simp add: load_state_def select_conversation_def save_state_def
      upsert_conversation_history_def clear_state_def delete_conversation_def
      get_or_create_chat_session_def select_open_session_def
      process_follow_up_def select_entry_single_def)

text \<open>
  The claim that an unreachable database is never turned into an absent result fails:
  a stored state is loaded when the database answers, and the same call returns no state
  when it does not.
\<close>

theorem load_state_unreachable_counterexample:
  "load_state True demo_history 7 ''default'' = (Some ''persona A'', [])
   \<and> load_state False demo_history 7 ''default'' = (None, [ErrorLoading (APIError ConnectionError)])"
  by (simp add: load_state_def select_conversation_def demo_history_def state_key_def)

theorem conversation_store_absorbs_failures_witness:
  "\<not> conn (demo_env all_down) 0
   \<and> process_follow_up (demo_env all_down) demo_db demo_request
        = (demo_db, Inl (HTTPException 500 (APIError ConnectionError)))
   \<and> load_state False demo_history 7 ''default'' = (None, [ErrorLoading (APIError ConnectionError)])
   \<and> clear_state False demo_history 7 ''default'' = (demo_history, [ErrorClearing (APIError ConnectionError)])"
proof -
  have h: "\<not> conn (demo_env all_down) 0" by (simp add: demo_env_def all_up_def all_down_def link_down_def entry_insert_down_def)
  note t = conversation_store_absorbs_failures
    [where tbl = demo_history and u = 7 and k = "''default''"
       and env = "demo_env all_down" and db = demo_db and request = demo_request]
  from t h have "process_follow_up (demo_env all_down) demo_db demo_request
        = (demo_db, Inl (HTTPException 500 (APIError ConnectionError)))"
    by blast
  with h t show ?thesis by blast
qed

section \<open>Synthesizing a follow-up\<close>

lemma select_entry_single_Inr:
  assumes "select_entry_single up tbl entry_id user_id = Inr r"
  shows "r \<in> set tbl \<and> je_id r = entry_id \<and> je_user_id r = user_id"
proof -
  from assms have "filter (\<lambda>r. je_id r = entry_id \<and> je_user_id r = user_id) tbl = [r]"
    by (auto simp: select_entry_single_def split: if_splits list.splits)
  then have "r \<in> set (filter (\<lambda>r. je_id r = entry_id \<and> je_user_id r = user_id) tbl)"
    by simp
  then show ?thesis by simp
qed

lemma map_if_none:
  assumes "\<forall>x\<in>set xs. \<not> P x"
  shows "map (\<lambda>x. if P x then g x else x) xs = xs"
  using assms by (induction xs) auto

lemma process_follow_up_error:
  assumes "snd (process_follow_up env db request) = Inl err"
  shows "\<exists>x. err = HTTPException 500 x"
  using assms
  by (auto simp: process_follow_up_def split: sum.splits prod.splits)

lemma process_follow_up_steps:
  assumes sel: "select_entry_single (conn env 0) (entries db) (req_entry_id request) (req_user_id request)
                  = Inr original"
    and c1: "conn env 1" and c2: "conn env 2"
    and fresh_f: "followup_new_id env \<notin> set (map jf_id (followups db))"
    and fresh_e: "entry_new_id env \<notin> set (map je_id (entries db))"
    and syn: "synthesize_entry env (je_content original) (req_answer request) = Inr content"
    and emb: "get_embedding env content = Inr embedding"
    and dim: "case embedding of None \<Rightarrow> True | Some v \<Rightarrow> length v = vector_dim"
    and known: "req_user_id request \<in> set (auth_users env)"
  shows "process_follow_up env db request =
     (if conn env 3
      then (\<lparr> entries = entries db @ [synthesized_row env request content embedding],
               followups = followups db @ [followup_row env request (Some (entry_new_id env))] \<rparr>,
            Inr \<lparr> resp_status = ''success'',
                  resp_synthesized_entry = synthesized_row env request content embedding,
                  resp_followup_id = followup_new_id env \<rparr>)
      else (\<lparr> entries = entries db @ [synthesized_row env request content embedding],
               followups = followups db @ [followup_row env request None] \<rparr>,
            Inl (HTTPException 500 (APIError ConnectionError))))"
proof -
  define f where "f = followup_row env request None"
  define e where "e = synthesized_row env request content embedding"
  define db1 where "db1 = db\<lparr>followups := followups db @ [f]\<rparr>"
  define db2 where "db2 = db1\<lparr>entries := entries db @ [e]\<rparr>"
  from select_entry_single_Inr[OF sel] have "req_entry_id request \<in> set (map je_id (entries db))"
    by force
  with c1 fresh_f have s1:
    "insert_followup (conn env 1) (followup_new_id env) (followup_now env) db
       (req_entry_id request) (req_question request) (req_answer request) = Inr (db1, f)"
    by (simp add: insert_followup_def Let_def db1_def f_def followup_row_def)
  have not_wrong: "\<not> (case embedding of None \<Rightarrow> False | Some v \<Rightarrow> length v \<noteq> vector_dim)"
    using dim by (simp split: option.splits)
  have s2: "insert_journal_entry (conn env 2) (auth_users env) (entry_new_id env) (entry_now env)
       (entries db1) (req_user_id request) content embedding None = Inr (entries db @ [e], e)"
    using c2 fresh_e not_wrong known
    by (simp add: insert_journal_entry_def Let_def db1_def e_def synthesized_row_def)
  have ids: "jf_id f = followup_new_id env" "je_id e = entry_new_id env"
    by (simp_all add: f_def followup_row_def e_def synthesized_row_def)
  have linked: "f\<lparr>jf_synthesized_entry_id := Some (entry_new_id env)\<rparr>
      = followup_row env request (Some (entry_new_id env))"
    by (simp add: f_def followup_row_def)
  have "\<forall>x\<in>set (followups db). \<not> jf_id x = followup_new_id env"
    using fresh_f by (auto simp: image_iff)
  then have others: "map (\<lambda>x. if jf_id x = followup_new_id env
                           then x\<lparr>jf_synthesized_entry_id := Some (entry_new_id env)\<rparr> else x)
                    (followups db) = followups db"
    by (rule map_if_none)
  have s3: "link_followup up \<lparr>entries = entries db @ [e], followups = followups db @ [f]\<rparr>
        (followup_new_id env) (entry_new_id env)
      = (if up
         then Inr \<lparr> entries = entries db @ [e],
                    followups = followups db @ [followup_row env request (Some (entry_new_id env))] \<rparr>
         else Inl ConnectionError)" for up
    using ids by (simp add: link_followup_def others linked)
  have fin: "db1\<lparr>entries := entries db @ [e]\<rparr>
      = \<lparr> entries = entries db @ [e], followups = followups db @ [f] \<rparr>"
    by (simp add: db1_def)
  show ?thesis
    by (simp add: process_follow_up_def sel s1 syn emb s2 s3 ids fin
          flip: e_def f_def del: One_nat_def)
qed

lemma process_follow_up_unknown_user:
  assumes sel: "select_entry_single (conn env 0) (entries db) (req_entry_id request) (req_user_id request)
                  = Inr original"
    and c1: "conn env 1" and c2: "conn env 2"
    and fresh_f: "followup_new_id env \<notin> set (map jf_id (followups db))"
    and fresh_e: "entry_new_id env \<notin> set (map je_id (entries db))"
    and syn: "synthesize_entry env (je_content original) (req_answer request) = Inr content"
    and emb: "get_embedding env content = Inr embedding"
    and dim: "case embedding of None \<Rightarrow> True | Some v \<Rightarrow> length v = vector_dim"
    and unknown: "req_user_id request \<notin> set (auth_users env)"
  shows "process_follow_up env db request =
     (\<lparr> entries = entries db, followups = followups db @ [followup_row env request None] \<rparr>,
      Inl (HTTPException 500 (APIError ForeignKeyViolation)))"
proof -
  define f where "f = followup_row env request None"
  define db1 where "db1 = db\<lparr>followups := followups db @ [f]\<rparr>"
  from select_entry_single_Inr[OF sel] have "req_entry_id request \<in> set (map je_id (entries db))"
    by force
  with c1 fresh_f have s1:
    "insert_followup (conn env 1) (followup_new_id env) (followup_now env) db
       (req_entry_id request) (req_question request) (req_answer request) = Inr (db1, f)"
    by (simp add: insert_followup_def Let_def db1_def f_def followup_row_def)
  have not_wrong: "\<not> (case embedding of None \<Rightarrow> False | Some v \<Rightarrow> length v \<noteq> vector_dim)"
    using dim by (simp split: option.splits)
  have s2: "insert_journal_entry (conn env 2) (auth_users env) (entry_new_id env) (entry_now env)
       (entries db) (req_user_id request) content embedding None = Inl ForeignKeyViolation"
    using c2 fresh_e not_wrong unknown
    by (simp add: insert_journal_entry_def)
  have fin: "db1 = \<lparr> entries = entries db, followups = followups db @ [f] \<rparr>"
    by (simp add: db1_def)
  show ?thesis
    by (simp add: process_follow_up_def sel s1 syn emb s2 fin flip: f_def del: One_nat_def)
qed

text \<open>
  C8 (as the code has it). Every failure of \<open>process_follow_up\<close> reaches the caller as
  an HTTP 500 whose detail is the text of the exception. When the original entry is
  found, the follow-up insert and the entry insert reach the database, the generated
  ids are fresh and both providers answer (the embedding absent or of the right
  dimension), the handler stores the follow-up and, the user being a row of
  \<open>auth.users\<close>, the synthesized entry; if the link update then reaches the database the
  follow-up points to the new entry and the response carries the entry and the follow-up
  id, and if it does not, both rows stay stored, the follow-up stays unlinked, and the
  caller gets the HTTP 500 of the connection failure. For a user that is no row of
  \<open>auth.users\<close> the entry insert is refused: the follow-up stays stored and unlinked and
  the caller gets the HTTP 500 of the foreign key violation.
\<close>

theorem process_follow_up_outcomes:
  "(\<forall>err. snd (process_follow_up env db request) = Inl err \<longrightarrow> (\<exists>x. err = HTTPException 500 x))
   \<and> (select_entry_single (conn env 0) (entries db) (req_entry_id request) (req_user_id request)
          = Inr original
        \<and> conn env 1 \<and> conn env 2
        \<and> followup_new_id env \<notin> set (map jf_id (followups db))
        \<and> entry_new_id env \<notin> set (map je_id (entries db))
        \<and> synthesize_entry env (je_content original) (req_answer request) = Inr content
        \<and> get_embedding env content = Inr embedding
        \<and> (case embedding of None \<Rightarrow> True | Some v \<Rightarrow> length v = vector_dim)
      \<longrightarrow> process_follow_up env db request =
           (if req_user_id request \<notin> set (auth_users env)
            then (\<lparr> entries = entries db,
                     followups = followups db @ [followup_row env request None] \<rparr>,
                  Inl (HTTPException 500 (APIError ForeignKeyViolation)))
            else if conn env 3
            then (\<lparr> entries = entries db @ [synthesized_row env request content embedding],
                     followups = followups db @ [followup_row env request (Some (entry_new_id env))] \<rparr>,
                  Inr \<lparr> resp_status = ''success'',
                        resp_synthesized_entry = synthesized_row env request content embedding,
                        resp_followup_id = followup_new_id env \<rparr>)
            else (\<lparr> entries = entries db @ [synthesized_row env request content embedding],
                     followups = followups db @ [followup_row env request None] \<rparr>,
                  Inl (HTTPException 500 (APIError ConnectionError)))))"
proof (intro conjI allI impI)
  fix err assume "snd (process_follow_up env db request) = Inl err"
  then show "\<exists>x. err = HTTPException 500 x" by (rule process_follow_up_error)
next
  assume h: "select_entry_single (conn env 0) (entries db) (req_entry_id request) (req_user_id request)
          = Inr original
        \<and> conn env 1 \<and> conn env 2
        \<and> followup_new_id env \<notin> set (map jf_id (followups db))
        \<and> entry_new_id env \<notin> set (map je_id (entries db))
        \<and> synthesize_entry env (je_content original) (req_answer request) = Inr content
        \<and> get_embedding env content = Inr embedding
        \<and> (case embedding of None \<Rightarrow> True | Some v \<Rightarrow> length v = vector_dim)"
  show "process_follow_up env db request =
           (if req_user_id request \<notin> set (auth_users env)
            then (\<lparr> entries = entries db,
                     followups = followups db @ [followup_row env request None] \<rparr>,
                  Inl (HTTPException 500 (APIError ForeignKeyViolation)))
            else if conn env 3
            then (\<lparr> entries = entries db @ [synthesized_row env request content embedding],
                     followups = followups db @ [followup_row env request (Some (entry_new_id env))] \<rparr>,
                  Inr \<lparr> resp_status = ''success'',
                        resp_synthesized_entry = synthesized_row env request content embedding,
                        resp_followup_id = followup_new_id env \<rparr>)
            else (\<lparr> entries = entries db @ [synthesized_row env request content embedding],
                     followups = followups db @ [followup_row env request None] \<rparr>,
                  Inl (HTTPException 500 (APIError ConnectionError))))"
  proof (cases "req_user_id request \<in> set (auth_users env)")
    case True
    from h have "process_follow_up env db request =
       (if conn env 3
        then (\<lparr> entries = entries db @ [synthesized_row env request content embedding],
                 followups = followups db @ [followup_row env request (Some (entry_new_id env))] \<rparr>,
              Inr \<lparr> resp_status = ''success'',
                    resp_synthesized_entry = synthesized_row env request content embedding,
                    resp_followup_id = followup_new_id env \<rparr>)
        else (\<lparr> entries = entries db @ [synthesized_row env request content embedding],
                 followups = followups db @ [followup_row env request None] \<rparr>,
              Inl (HTTPException 500 (APIError ConnectionError))))"
      by (intro process_follow_up_steps[where original = original] True) simp_all
    with True show ?thesis by (simp only: not_True_eq_False if_False simp_thms)
  next
    case False
    from h have "process_follow_up env db request =
       (\<lparr> entries = entries db, followups = followups db @ [followup_row env request None] \<rparr>,
        Inl (HTTPException 500 (APIError ForeignKeyViolation)))"
      by (intro process_follow_up_unknown_user[where original = original and content = content
            and embedding = embedding] False) simp_all
    with False show ?thesis by (simp only: if_True simp_thms)
  qed
qed

text \<open>
  The claim that a linking failure is surfaced distinctly from an entry-creation failure
  fails: when the link update cannot reach the database the entry is stored and the
  follow-up is left unlinked, and the caller receives exactly what it receives when the
  entry insert cannot reach the database. A retry of the handler inserts a second
  follow-up and a second entry.
\<close>

lemma demo_link_fails:
  "process_follow_up (demo_env link_down) demo_db demo_request
     = (\<lparr> entries = demo_entries
               @ [synthesized_row (demo_env link_down) demo_request
                    ''anxious about work -- A deadline'' None],
           followups = [followup_row (demo_env link_down) demo_request None] \<rparr>,
        Inl (HTTPException 500 (APIError ConnectionError)))"
  by (simp add: process_follow_up_def demo_env_def all_up_def all_down_def link_down_def entry_insert_down_def demo_db_def demo_request_def demo_entries_def
      demo_entry_def select_entry_single_def insert_followup_def insert_journal_entry_def
      link_followup_def synthesized_row_def followup_row_def demo_users_def Let_def)

lemma demo_entry_insert_fails:
  "process_follow_up (demo_env entry_insert_down) demo_db demo_request
     = (\<lparr> entries = demo_entries,
           followups = [followup_row (demo_env entry_insert_down) demo_request None] \<rparr>,
        Inl (HTTPException 500 (APIError ConnectionError)))"
  by (simp add: process_follow_up_def demo_env_def all_up_def all_down_def link_down_def entry_insert_down_def demo_db_def demo_request_def demo_entries_def
      demo_entry_def select_entry_single_def insert_followup_def insert_journal_entry_def
      link_followup_def synthesized_row_def followup_row_def demo_users_def Let_def)

lemma demo_linked:
  "process_follow_up (demo_env all_up) demo_db demo_request
     = (\<lparr> entries = demo_entries
               @ [synthesized_row (demo_env all_up) demo_request
                    ''anxious about work -- A deadline'' None],
           followups = [followup_row (demo_env all_up) demo_request (Some 31)] \<rparr>,
        Inr \<lparr> resp_status = ''success'',
              resp_synthesized_entry = synthesized_row (demo_env all_up) demo_request
                    ''anxious about work -- A deadline'' None,
              resp_followup_id = 21 \<rparr>)"
  by (simp add: process_follow_up_def demo_env_def all_up_def demo_db_def demo_request_def demo_entries_def
      demo_entry_def select_entry_single_def insert_followup_def insert_journal_entry_def
      link_followup_def synthesized_row_def followup_row_def demo_users_def Let_def)

theorem link_failure_not_distinct_counterexample:
  "snd (process_follow_up (demo_env link_down) demo_db demo_request)
     = snd (process_follow_up (demo_env entry_insert_down) demo_db demo_request)
   \<and> snd (process_follow_up (demo_env link_down) demo_db demo_request)
     = Inl (HTTPException 500 (APIError ConnectionError))
   \<and> map je_id (entries (fst (process_follow_up (demo_env link_down) demo_db demo_request)))
     = [1, 2, 3, 4, 5, 31]
   \<and> map jf_synthesized_entry_id
        (followups (fst (process_follow_up (demo_env link_down) demo_db demo_request)))
     = [None]
   \<and> map je_id (entries (fst (process_follow_up (demo_env entry_insert_down) demo_db demo_request)))
     = [1, 2, 3, 4, 5]"
  unfolding demo_link_fails demo_entry_insert_fails
  by (simp add: synthesized_row_def followup_row_def demo_env_def all_up_def all_down_def link_down_def entry_insert_down_def demo_entries_def demo_entry_def)

lemma demo_retry_duplicates:
  "map je_id (entries (fst (process_follow_up
      ((demo_env all_up)\<lparr>followup_new_id := 22, entry_new_id := 32\<rparr>)
      (fst (process_follow_up (demo_env link_down) demo_db demo_request)) demo_request)))
     = [1, 2, 3, 4, 5, 31, 32]
   \<and> map jf_synthesized_entry_id (followups (fst (process_follow_up
      ((demo_env all_up)\<lparr>followup_new_id := 22, entry_new_id := 32\<rparr>)
      (fst (process_follow_up (demo_env link_down) demo_db demo_request)) demo_request)))
     = [None, Some 32]"
  by (simp add: demo_link_fails)
     (simp add: process_follow_up_def demo_env_def all_up_def all_down_def link_down_def entry_insert_down_def demo_request_def demo_entries_def
      demo_entry_def select_entry_single_def insert_followup_def insert_journal_entry_def
      link_followup_def synthesized_row_def followup_row_def demo_users_def Let_def)

theorem process_follow_up_outcomes_witness:
  "select_entry_single (conn (demo_env link_down) 0) (entries demo_db)
       (req_entry_id demo_request) (req_user_id demo_request) = Inr (hd demo_entries)
   \<and> conn (demo_env link_down) 1 \<and> conn (demo_env link_down) 2
   \<and> followup_new_id (demo_env link_down) \<notin> set (map jf_id (followups demo_db))
   \<and> entry_new_id (demo_env link_down) \<notin> set (map je_id (entries demo_db))
   \<and> synthesize_entry (demo_env link_down) (je_content (hd demo_entries)) (req_answer demo_request)
        = Inr ''anxious about work -- A deadline''
   \<and> get_embedding (demo_env link_down) ''anxious about work -- A deadline'' = Inr None
   \<and> req_user_id demo_request \<in> set (auth_users (demo_env link_down))
   \<and> process_follow_up (demo_env link_down) demo_db demo_request
     = (\<lparr> entries = entries demo_db
               @ [synthesized_row (demo_env link_down) demo_request
                    ''anxious about work -- A deadline'' None],
           followups = followups demo_db @ [followup_row (demo_env link_down) demo_request None] \<rparr>,
        Inl (HTTPException 500 (APIError ConnectionError)))"
proof -
  let ?env = "demo_env link_down"
  have h0: "select_entry_single (conn ?env 0) (entries demo_db)
       (req_entry_id demo_request) (req_user_id demo_request) = Inr (hd demo_entries)"
    by (simp add: select_entry_single_def demo_env_def all_up_def all_down_def link_down_def entry_insert_down_def demo_db_def demo_request_def
        demo_entries_def demo_entry_def)
  have h1: "conn ?env 1" and h2: "conn ?env 2" and h3: "\<not> conn ?env 3"
    by (simp_all add: demo_env_def all_up_def all_down_def link_down_def entry_insert_down_def)
  have h4: "followup_new_id ?env \<notin> set (map jf_id (followups demo_db))"
    by (simp add: demo_db_def)
  have h5: "entry_new_id ?env \<notin> set (map je_id (entries demo_db))"
    by (simp add: demo_env_def all_up_def all_down_def link_down_def entry_insert_down_def demo_db_def demo_entries_def demo_entry_def)
  have h6: "synthesize_entry ?env (je_content (hd demo_entries)) (req_answer demo_request)
        = Inr ''anxious about work -- A deadline''"
    by (simp add: demo_env_def all_up_def all_down_def link_down_def entry_insert_down_def demo_entries_def demo_entry_def demo_request_def)
  have h7: "get_embedding ?env ''anxious about work -- A deadline'' = Inr None"
    by (simp add: demo_env_def all_up_def all_down_def link_down_def entry_insert_down_def)
  have h8: "case None :: vector option of None \<Rightarrow> True | Some v \<Rightarrow> length v = vector_dim"
    by simp
  have h9: "req_user_id demo_request \<in> set (auth_users ?env)"
    by (simp add: demo_env_def demo_request_def demo_users_def)
  from process_follow_up_outcomes[of ?env demo_db demo_request "hd demo_entries"
      "''anxious about work -- A deadline''" None] h0 h1 h2 h3 h4 h5 h6 h7 h8 h9
  have c: "process_follow_up ?env demo_db demo_request
     = (\<lparr> entries = entries demo_db
               @ [synthesized_row ?env demo_request ''anxious about work -- A deadline'' None],
           followups = followups demo_db @ [followup_row ?env demo_request None] \<rparr>,
        Inl (HTTPException 500 (APIError ConnectionError)))"
    by (simp only: simp_thms if_False not_True_eq_False)
  from h0 h1 h2 h4 h5 h6 h7 h9 c show ?thesis by (intro conjI)
qed

end
